theory Spec2Isabelle
  imports Complex_Main
begin

section \<open>Python values, errors and built-ins\<close>

text \<open>
  The analyser is dynamically typed Python. Values that reach the colour code are
  modelled by \<open>pyval\<close>; every exception the source can raise is a value of \<open>error\<close>
  and a function that may raise returns \<open>error + 'a\<close>.

  Python floats are modelled by the reals: binary rounding, overflow to \<open>inf\<close> and
  \<open>nan\<close> are not represented, and \<open>int\<close> and \<open>float\<close> are both \<open>PyNum\<close>
  (Python compares them by value). Strings are byte strings; only ASCII white space,
  digits and letters are classified.
\<close>

datatype error =
  KeyError | ValueError | TypeError | AttributeError | IndexError
  | ZeroDivisionError | RecursionError

datatype pyval =
  PyNone
  | PyStr string
  | PyNum real
  | PyTuple "pyval list"
  | PyList "pyval list"
  | PyDict "(string \<times> pyval) list"

fun ebind :: "error + 'a \<Rightarrow> ('a \<Rightarrow> error + 'b) \<Rightarrow> error + 'b" where
  "ebind (Inl e) f = Inl e"
| "ebind (Inr x) f = f x"

text \<open>Python \<open>dict\<close>: assignment keeps the position of an existing key and appends a new one.\<close>

fun dict_set :: "'k \<Rightarrow> 'v \<Rightarrow> ('k \<times> 'v) list \<Rightarrow> ('k \<times> 'v) list" where
  "dict_set k v [] = [(k, v)]"
| "dict_set k v (p # ps) = (if fst p = k then (k, v) # ps else p # dict_set k v ps)"

definition dict_of_pairs :: "('k \<times> 'v) list \<Rightarrow> ('k \<times> 'v) list" where
  "dict_of_pairs ps = foldl (\<lambda>d (k, v). dict_set k v d) [] ps"

subsection \<open>Characters and strings\<close>

definition py_isspace :: "char \<Rightarrow> bool" where
  "py_isspace c = (c \<in> {CHR '' '', CHR 0x09, CHR 0x0A, CHR 0x0B, CHR 0x0C, CHR 0x0D,
                         CHR 0x1C, CHR 0x1D, CHR 0x1E, CHR 0x1F})"

definition is_digit :: "char \<Rightarrow> bool" where
  "is_digit c = (c \<in> set ''0123456789'')"

definition is_hexdigit :: "char \<Rightarrow> bool" where
  "is_hexdigit c = (c \<in> set ''0123456789abcdefABCDEF'')"

definition lower_char :: "char \<Rightarrow> char" where
  "lower_char c = (case map_of (zip ''ABCDEFGHIJKLMNOPQRSTUVWXYZ'' ''abcdefghijklmnopqrstuvwxyz'') c
                   of Some d \<Rightarrow> d | None \<Rightarrow> c)"

definition upper_char :: "char \<Rightarrow> char" where
  "upper_char c = (case map_of (zip ''abcdefghijklmnopqrstuvwxyz'' ''ABCDEFGHIJKLMNOPQRSTUVWXYZ'') c
                   of Some d \<Rightarrow> d | None \<Rightarrow> c)"

definition py_lower :: "string \<Rightarrow> string" where
  "py_lower s = map lower_char s"

definition py_strip :: "string \<Rightarrow> string" where
  "py_strip s = rev (dropWhile py_isspace (rev (dropWhile py_isspace s)))"

definition py_isdigit :: "string \<Rightarrow> bool" where
  "py_isdigit s = (s \<noteq> [] \<and> list_all is_digit s)"

fun py_startswith :: "string \<Rightarrow> string \<Rightarrow> bool" where
  "py_startswith s [] = True"
| "py_startswith [] (p # ps) = False"
| "py_startswith (c # cs) (p # ps) = (c = p \<and> py_startswith cs ps)"

fun py_contains :: "string \<Rightarrow> string \<Rightarrow> bool" where
  "py_contains [] p = (p = [])"
| "py_contains (c # cs) p = (py_startswith (c # cs) p \<or> py_contains cs p)"

text \<open>\<open>s[i:j]\<close> for \<open>0 \<le> i \<le> j\<close>, and \<open>s[i:-1]\<close>.\<close>

definition py_slice :: "'a list \<Rightarrow> nat \<Rightarrow> nat \<Rightarrow> 'a list" where
  "py_slice s i j = take (j - i) (drop i s)"

definition py_slice_to_last :: "'a list \<Rightarrow> nat \<Rightarrow> 'a list" where
  "py_slice_to_last s i = py_slice s i (length s - 1)"

text \<open>\<open>' '.join(xs)\<close>.\<close>

fun py_join_space :: "string list \<Rightarrow> string" where
  "py_join_space [] = []"
| "py_join_space [x] = x"
| "py_join_space (x # y # ys) = x @ '' '' @ py_join_space (y # ys)"

text \<open>\<open>s.split()\<close>: the maximal runs of non-space characters.\<close>

fun py_split_acc :: "string \<Rightarrow> string \<Rightarrow> string list" where
  "py_split_acc w [] = (if w = [] then [] else [w])"
| "py_split_acc w (c # cs) =
     (if py_isspace c then (if w = [] then py_split_acc [] cs else w # py_split_acc [] cs)
      else py_split_acc (w @ [c]) cs)"

definition py_split :: "string \<Rightarrow> string list" where
  "py_split s = py_split_acc [] s"

subsection \<open>Numbers\<close>

definition digit_val :: "char \<Rightarrow> nat" where
  "digit_val c = (case map_of (zip ''0123456789abcdefABCDEF''
                     [0, 1, 2, 3, 4, 5, 6, 7, 8, 9, 10, 11, 12, 13, 14, 15, 10, 11, 12, 13, 14, 15]) c
                  of Some n \<Rightarrow> n | None \<Rightarrow> 0)"

definition digits_val :: "nat \<Rightarrow> string \<Rightarrow> nat" where
  "digits_val base s = foldl (\<lambda>acc c. acc * base + digit_val c) 0 s"

text \<open>\<open>int(s)\<close> and \<open>int(s, 16)\<close> on the strings the source passes: runs of digits.\<close>

definition py_int_dec :: "string \<Rightarrow> error + int" where
  "py_int_dec s = (if s \<noteq> [] \<and> list_all is_digit s then Inr (int (digits_val 10 s)) else Inl ValueError)"

definition py_int_hex :: "string \<Rightarrow> error + int" where
  "py_int_hex s = (if s \<noteq> [] \<and> list_all is_hexdigit s then Inr (int (digits_val 16 s)) else Inl ValueError)"

text \<open>
  \<open>float(s)\<close>: white space is stripped; an optional sign; digits with an optional
  point and an optional exponent; digits may be grouped by single underscores.
  The spellings of infinity and nan have no real value and are rejected here.
\<close>

fun digitpart :: "string \<Rightarrow> string \<times> string" where
  "digitpart [] = ([], [])"
| "digitpart [c] = (if is_digit c then ([c], []) else ([], [c]))"
| "digitpart (c # d # cs) =
     (if \<not> is_digit c then ([], c # d # cs)
      else if d = CHR ''_'' then
        (case cs of
           [] \<Rightarrow> ([c], d # cs)
         | e # es \<Rightarrow> if is_digit e then (let (ds, r) = digitpart cs in (c # ds, r)) else ([c], d # cs))
      else (let (ds, r) = digitpart (d # cs) in (c # ds, r)))"

definition float_unsigned :: "string \<Rightarrow> real option" where
  "float_unsigned s =
     (let (ip, r1) = digitpart s;
          (fp, r2) = (case r1 of
                        c # cs \<Rightarrow> if c = CHR ''.'' then digitpart cs else ([], r1)
                      | [] \<Rightarrow> ([], r1));
          mant = real (digits_val 10 ip) + real (digits_val 10 fp) / 10 ^ length fp
      in if ip = [] \<and> fp = [] then None
         else (case r2 of
                 [] \<Rightarrow> Some mant
               | c # cs \<Rightarrow>
                   if c = CHR ''e'' \<or> c = CHR ''E'' then
                     (let (neg, ds) = (case cs of
                                         x # xs \<Rightarrow> if x = CHR ''-'' then (True, xs)
                                                   else if x = CHR ''+'' then (False, xs)
                                                   else (False, cs)
                                       | [] \<Rightarrow> (False, cs));
                          (ep, r3) = digitpart ds
                      in if ep = [] \<or> r3 \<noteq> [] then None
                         else if neg then Some (mant / 10 ^ digits_val 10 ep)
                         else Some (mant * 10 ^ digits_val 10 ep))
                   else None))"

definition py_float :: "string \<Rightarrow> real option" where
  "py_float s0 =
     (case py_strip s0 of
        [] \<Rightarrow> None
      | c # cs \<Rightarrow>
          if c = CHR ''-'' then map_option uminus (float_unsigned cs)
          else if c = CHR ''+'' then float_unsigned cs
          else float_unsigned (c # cs))"

text \<open>\<open>int(x)\<close> truncates towards zero; \<open>round(x)\<close> and \<open>round(x, 2)\<close> round half to even.\<close>

definition py_trunc :: "real \<Rightarrow> int" where
  "py_trunc x = (if 0 \<le> x then \<lfloor>x\<rfloor> else \<lceil>x\<rceil>)"

definition py_round :: "real \<Rightarrow> int" where
  "py_round x =
     (let f = \<lfloor>x\<rfloor>; d = x - of_int f
      in if d < 1 / 2 then f else if 1 / 2 < d then f + 1 else if even f then f else f + 1)"

definition py_round2 :: "real \<Rightarrow> real" where
  "py_round2 x = of_int (py_round (x * 100)) / 100"

text \<open>Decimal digits of a natural number, and the format \<open>:.2f\<close>.\<close>

fun nat_str :: "nat \<Rightarrow> string" where
  "nat_str n = (if n < 10 then [''0123456789'' ! n]
                else nat_str (n div 10) @ [''0123456789'' ! (n mod 10)])"

declare nat_str.simps [simp del]

definition int_str :: "int \<Rightarrow> string" where
  "int_str i = (if i < 0 then ''-'' @ nat_str (nat (- i)) else nat_str (nat i))"

definition fmt_2f :: "real \<Rightarrow> string" where
  "fmt_2f x =
     (let n = nat \<bar>py_round (x * 100)\<bar>
      in (if x < 0 then ''-'' else '''') @ nat_str (n div 100) @ ''.''
         @ nat_str (n mod 100 div 10) @ nat_str (n mod 10))"

section \<open>Regular expressions\<close>

text \<open>
  The source's patterns only repeat character classes, so a backtracking matcher over
  that fragment is structurally recursive. \<open>rmatch\<close> returns the end positions (with
  the groups captured so far) in the order Python's engine tries them; the first one is
  the match. \<open>REos\<close> is \<open>$\<close> without the MULTILINE flag: the end of the string, or
  just before a final newline.
\<close>

datatype cclass =
  CChar char
  | CSet string
  | CDigit
  | CSpace
  | CAny
  | CNot cclass
  | COr cclass cclass

datatype regex =
  REmpty
  | RCls cclass
  | RBos
  | REos
  | RSeq regex regex
  | RAlt regex regex
  | ROpt regex
  | RRep cclass nat "nat option"
  | RLazyStar cclass
  | RGroup nat regex

fun cclass_has :: "cclass \<Rightarrow> char \<Rightarrow> bool" where
  "cclass_has (CChar d) c = (c = d)"
| "cclass_has (CSet s) c = (c \<in> set s)"
| "cclass_has CDigit c = is_digit c"
| "cclass_has CSpace c = py_isspace c"
| "cclass_has CAny c = True"
| "cclass_has (CNot k) c = (\<not> cclass_has k c)"
| "cclass_has (COr k l) c = (cclass_has k c \<or> cclass_has l c)"

text \<open>With IGNORECASE a character matches when either of its cases does.\<close>

fun cmatch :: "bool \<Rightarrow> cclass \<Rightarrow> char \<Rightarrow> bool" where
  "cmatch ic (CNot k) c = (\<not> cmatch ic k c)"
| "cmatch ic (COr k l) c = (cmatch ic k c \<or> cmatch ic l c)"
| "cmatch ic k c = (cclass_has k c \<or> (ic \<and> (cclass_has k (lower_char c) \<or> cclass_has k (upper_char c))))"

type_synonym caps = "(nat \<times> string) list"

definition run_len :: "bool \<Rightarrow> cclass \<Rightarrow> string \<Rightarrow> nat \<Rightarrow> nat" where
  "run_len ic k s i = length (takeWhile (cmatch ic k) (drop i s))"

fun rmatch :: "bool \<Rightarrow> string \<Rightarrow> regex \<Rightarrow> nat \<times> caps \<Rightarrow> (nat \<times> caps) list" where
  "rmatch ic s REmpty st = [st]"
| "rmatch ic s (RCls k) (i, g) = (if i < length s \<and> cmatch ic k (s ! i) then [(Suc i, g)] else [])"
| "rmatch ic s RBos (i, g) = (if i = 0 then [(i, g)] else [])"
| "rmatch ic s REos (i, g) =
     (if i = length s \<or> (Suc i = length s \<and> s ! i = CHR 0x0A) then [(i, g)] else [])"
| "rmatch ic s (RSeq a b) st = concat (map (rmatch ic s b) (rmatch ic s a st))"
| "rmatch ic s (RAlt a b) st = rmatch ic s a st @ rmatch ic s b st"
| "rmatch ic s (ROpt a) st = rmatch ic s a st @ [st]"
| "rmatch ic s (RRep k lo hi) (i, g) =
     (let n = run_len ic k s i; m = (case hi of None \<Rightarrow> n | Some h \<Rightarrow> min n h)
      in map (\<lambda>j. (i + j, g)) (rev [lo..<Suc m]))"
| "rmatch ic s (RLazyStar k) (i, g) = map (\<lambda>j. (i + j, g)) [0..<Suc (run_len ic k s i)]"
| "rmatch ic s (RGroup n a) (i, g) =
     map (\<lambda>(j, g'). (j, (n, py_slice s i j) # g')) (rmatch ic s a (i, g))"

definition rlit :: "string \<Rightarrow> regex" where
  "rlit s = foldr (\<lambda>c r. RSeq (RCls (CChar c)) r) s REmpty"

definition rseq :: "regex list \<Rightarrow> regex" where
  "rseq rs = foldr RSeq rs REmpty"

definition rstar :: "cclass \<Rightarrow> regex" where
  "rstar k = RRep k 0 None"

definition rplus :: "cclass \<Rightarrow> regex" where
  "rplus k = RRep k 1 None"

text \<open>\<open>pattern.match(s)\<close>: the groups of the first match at position 0.\<close>

definition re_match :: "bool \<Rightarrow> regex \<Rightarrow> string \<Rightarrow> caps option" where
  "re_match ic r s = (case rmatch ic s r (0, []) of [] \<Rightarrow> None | (e, g) # _ \<Rightarrow> Some g)"

definition group :: "caps \<Rightarrow> nat \<Rightarrow> string option" where
  "group g n = map_of g n"

text \<open>\<open>pattern.finditer(s)\<close>: successive non-overlapping matches, left to right.\<close>

function finditer_from :: "bool \<Rightarrow> regex \<Rightarrow> string \<Rightarrow> nat \<Rightarrow> (nat \<times> nat \<times> caps) list" where
  "finditer_from ic r s pos =
     (if length s < pos then []
      else (case rmatch ic s r (pos, []) of
              [] \<Rightarrow> finditer_from ic r s (Suc pos)
            | (e, g) # _ \<Rightarrow> (pos, e, g) # finditer_from ic r s (if pos < e then e else Suc pos)))"
  by pat_completeness auto
termination
  by (relation "measure (\<lambda>(ic, r, s, pos). Suc (length s) - pos)") auto

declare finditer_from.simps [simp del]

definition finditer :: "bool \<Rightarrow> regex \<Rightarrow> string \<Rightarrow> (nat \<times> nat \<times> caps) list" where
  "finditer ic r s = finditer_from ic r s 0"

subsection \<open>The precompiled patterns of the module\<close>

definition hex_class :: cclass where
  "hex_class = CSet ''0123456789abcdef''"

definition digit_dot :: cclass where
  "digit_dot = COr CDigit (CChar CHR ''.'')"

text \<open>\<open>^#([0-9a-f]{3,8})$\<close>\<close>

definition COLOR_HEX_RE :: regex where
  "COLOR_HEX_RE = rseq [RBos, rlit ''#'', RGroup 1 (RRep hex_class 3 (Some 8)), REos]"

text \<open>\<open>rgba?\(\s*(\d+)\s*,\s*(\d+)\s*,\s*(\d+)\s*,?\s*([\d.]+)?\s*\)\<close>\<close>

definition RGB_RE :: regex where
  "RGB_RE = rseq [rlit ''rgb'', ROpt (rlit ''a''), rlit ''('', rstar CSpace,
                  RGroup 1 (rplus CDigit), rstar CSpace, rlit '','', rstar CSpace,
                  RGroup 2 (rplus CDigit), rstar CSpace, rlit '','', rstar CSpace,
                  RGroup 3 (rplus CDigit), rstar CSpace, ROpt (rlit '',''), rstar CSpace,
                  ROpt (RGroup 4 (rplus digit_dot)), rstar CSpace, rlit '')'']"

text \<open>\<open>hsla?\(\s*(\d+)\s*,\s*(\d+)%\s*,\s*(\d+)%\s*,?\s*([\d.]+)?\s*\)\<close>\<close>

definition HSL_RE :: regex where
  "HSL_RE = rseq [rlit ''hsl'', ROpt (rlit ''a''), rlit ''('', rstar CSpace,
                  RGroup 1 (rplus CDigit), rstar CSpace, rlit '','', rstar CSpace,
                  RGroup 2 (rplus CDigit), rlit ''%'', rstar CSpace, rlit '','', rstar CSpace,
                  RGroup 3 (rplus CDigit), rlit ''%'', rstar CSpace, ROpt (rlit '',''), rstar CSpace,
                  ROpt (RGroup 4 (rplus digit_dot)), rstar CSpace, rlit '')'']"

text \<open>\<open>([a-zA-Z-]+)\s*:\s*([^;]+)\<close>\<close>

definition STYLE_PROP_RE :: regex where
  "STYLE_PROP_RE =
     rseq [RGroup 1 (rplus (CSet ''abcdefghijklmnopqrstuvwxyzABCDEFGHIJKLMNOPQRSTUVWXYZ-'')),
           rstar CSpace, rlit '':'', rstar CSpace, RGroup 2 (rplus (CNot (CChar CHR '';'')))]"

text \<open>\<open>([-+]?[\d.]+)(px|pt|em|rem|%)?\<close>\<close>

definition LENGTH_RE :: regex where
  "LENGTH_RE =
     rseq [RGroup 1 (RSeq (ROpt (RCls (CSet ''-+''))) (rplus digit_dot)),
           ROpt (RGroup 2 (RAlt (rlit ''px'') (RAlt (rlit ''pt'') (RAlt (rlit ''em'')
                   (RAlt (rlit ''rem'') (rlit ''%''))))))]"

text \<open>The pattern of \<open>_parse_font_size\<close>: \<open>^([\d.]+)(px|pt|em|%)$\<close>\<close>

definition FONT_SIZE_RE :: regex where
  "FONT_SIZE_RE =
     rseq [RBos, RGroup 1 (rplus digit_dot),
           RGroup 2 (RAlt (rlit ''px'') (RAlt (rlit ''pt'') (RAlt (rlit ''em'') (rlit ''%'')))),
           REos]"

text \<open>The pattern of the \<open>width\<close> attribute: \<open>^\d+$\<close>\<close>

definition DIGITS_RE :: regex where
  "DIGITS_RE = rseq [RBos, rplus CDigit, REos]"

text \<open>
  \<open>SPLIT_CONDITIONAL_RE\<close>, as the module writes it:
  \<^verbatim>\<open><!$$if\s+([^>]+)$$>([\s\S]*?)<!$$endif$$>\<close>.
  Each \<open>$\<close> is the end-of-string anchor.
\<close>

definition SPLIT_CONDITIONAL_RE :: regex where
  "SPLIT_CONDITIONAL_RE =
     rseq [rlit ''<!'', REos, REos, rlit ''if'', rplus CSpace,
           RGroup 1 (rplus (CNot (CChar CHR ''>''))), REos, REos, rlit ''>'',
           RGroup 2 (RLazyStar (COr CSpace (CNot CSpace))),
           rlit ''<!'', REos, REos, rlit ''endif'', REos, REos, rlit ''>'']"

section \<open>The document tree\<close>

text \<open>
  The tree is built by the BeautifulSoup library. An element is a \<open>Tag\<close> with its name,
  its attribute dictionary and its children; the document object itself is a \<open>Tag\<close>
  named \<open>[document]\<close>. Every other node is a string of one of the library's classes:
  \<open>KText\<close> is a plain \<open>NavigableString\<close>, \<open>KOther\<close> any further subclass
  (doctype, processing instruction, ...). The value of a \<open>class\<close> attribute, which the
  library keeps as the list of its tokens, is kept here as the unsplit string.
\<close>

datatype strkind = KText | KCData | KComment | KDeclaration | KOther

datatype node =
  Tag string "(string \<times> string) list" "node list"
  | Str strkind string

section \<open>The colour model\<close>

text \<open>
  A colour is the dictionary \<open>{'rgb': tuple, 'alpha': float}\<close> the parsers build.
  \<open>color_val\<close> is that dictionary as a Python value. The colour-name table of the
  \<open>webcolors\<close> library, Python's shortest \<open>repr\<close> of a float, and the parser and
  the serialiser of BeautifulSoup (\<open>BeautifulSoup(s, 'html.parser')\<close>, \<open>str(tag)\<close>)
  are outside the repository and are parameters (\<open>None\<close> is the library's ValueError).
\<close>

record color =
  rgb :: "pyval list"
  alpha :: real

definition color_val :: "color \<Rightarrow> pyval" where
  "color_val c = PyDict [(''rgb'', PyTuple (rgb c)), (''alpha'', PyNum (alpha c))]"

definition rgb3 :: "real \<Rightarrow> real \<Rightarrow> real \<Rightarrow> pyval list" where
  "rgb3 r g b = [PyNum r, PyNum g, PyNum b]"

definition black :: color where
  "black = \<lparr>rgb = rgb3 0 0 0, alpha = 1\<rparr>"

definition white :: color where
  "white = \<lparr>rgb = rgb3 255 255 255, alpha = 1\<rparr>"

definition transparent_black :: color where
  "transparent_black = \<lparr>rgb = rgb3 0 0 0, alpha = 0\<rparr>"

record ext =
  name_to_rgb :: "string \<Rightarrow> (int \<times> int \<times> int) option"
  float_repr :: "real \<Rightarrow> string"
  bs_parse :: "string \<Rightarrow> node"
  bs_str :: "node \<Rightarrow> string"

definition hue_to_rgb :: "real \<Rightarrow> real \<Rightarrow> real \<Rightarrow> real" where
  "hue_to_rgb p q t0 =
     (let t1 = t0 + (if t0 < 0 then 1 else 0);
          t = t1 - (if 1 < t1 then 1 else 0)
      in if t < 1 / 6 then p + (q - p) * 6 * t
         else if t < 1 / 2 then q
         else if t < 2 / 3 then p + (q - p) * (2 / 3 - t) * 6
         else p)"

definition hsl_to_rgb :: "real \<Rightarrow> real \<Rightarrow> real \<Rightarrow> real \<Rightarrow> color" where
  "hsl_to_rgb h0 s0 l0 a =
     (let h = h0 / 360; s = s0 / 100; l = l0 / 100;
          (r, g, b) =
            (if s = 0 then (l, l, l)
             else (let q = (if l < 0.5 then l * (1 + s) else l + s - l * s);
                       p = 2 * l - q
                   in (hue_to_rgb p q (h + 1 / 3), hue_to_rgb p q h, hue_to_rgb p q (h - 1 / 3))))
      in \<lparr>rgb = rgb3 (of_int (py_round (r * 255))) (of_int (py_round (g * 255)))
                     (of_int (py_round (b * 255))),
          alpha = a\<rparr>)"

text \<open>\<open>float(m.group(4) or 1)\<close>\<close>

definition alpha_group :: "caps \<Rightarrow> error + real" where
  "alpha_group g =
     (case group g 4 of
        None \<Rightarrow> Inr 1
      | Some s \<Rightarrow> (case py_float s of None \<Rightarrow> Inl ValueError | Some a \<Rightarrow> Inr a))"

definition int_group :: "caps \<Rightarrow> nat \<Rightarrow> error + int" where
  "int_group g n = (case group g n of None \<Rightarrow> Inl TypeError | Some s \<Rightarrow> py_int_dec s)"

definition parse_color_string :: "ext \<Rightarrow> string \<Rightarrow> error + color" where
  "parse_color_string x value0 =
     (let v = py_lower (py_strip value0)
      in if v = ''transparent'' then Inr transparent_black
         else (case re_match True COLOR_HEX_RE v of
           Some m \<Rightarrow>
             (let hex0 = (case group m 1 of Some h \<Rightarrow> h | None \<Rightarrow> []);
                  hex_val = (if length hex0 = 3 \<or> length hex0 = 4
                             then concat (map (\<lambda>c. [c, c]) hex0) else hex0);
                  rgb_part = take 6 hex_val;
                  alpha_hex0 = (if 6 < length hex_val then drop 6 hex_val else []);
                  alpha_hex = take 2 (alpha_hex0 @ ''ff'')
              in ebind (py_int_hex alpha_hex) (\<lambda>a.
                 ebind (py_int_hex (py_slice rgb_part 0 2)) (\<lambda>r.
                 ebind (py_int_hex (py_slice rgb_part 2 4)) (\<lambda>g.
                 ebind (py_int_hex (py_slice rgb_part 4 6)) (\<lambda>b.
                 Inr \<lparr>rgb = rgb3 (of_int r) (of_int g) (of_int b), alpha = of_int a / 255\<rparr>)))))
         | None \<Rightarrow>
         (case re_match True RGB_RE v of
           Some m \<Rightarrow>
             ebind (int_group m 1) (\<lambda>r.
             ebind (int_group m 2) (\<lambda>g.
             ebind (int_group m 3) (\<lambda>b.
             ebind (alpha_group m) (\<lambda>a.
             Inr \<lparr>rgb = rgb3 (of_int r) (of_int g) (of_int b), alpha = a\<rparr>))))
         | None \<Rightarrow>
         (case re_match True HSL_RE v of
           Some m \<Rightarrow>
             ebind (int_group m 1) (\<lambda>h.
             ebind (int_group m 2) (\<lambda>s.
             ebind (int_group m 3) (\<lambda>l.
             ebind (alpha_group m) (\<lambda>a.
             Inr (hsl_to_rgb (of_int h) (of_int s) (of_int l) a)))))
         | None \<Rightarrow>
         (case name_to_rgb x v of
            None \<Rightarrow> Inl ValueError
          | Some (r, g, b) \<Rightarrow> Inr \<lparr>rgb = rgb3 (of_int r) (of_int g) (of_int b), alpha = 1\<rparr>)))))"

text \<open>Comparing a number with \<open>min\<close>/\<open>max\<close>, or multiplying it by a float, raises TypeError on
  anything that is not a number.\<close>

fun num_of :: "pyval \<Rightarrow> error + real" where
  "num_of (PyNum r) = Inr r"
| "num_of v = Inl TypeError"

definition clamp255 :: "real \<Rightarrow> real" where
  "clamp255 x = max 0 (min x 255)"

definition parse_color_tuple :: "pyval list \<Rightarrow> error + color" where
  "parse_color_tuple value_tuple =
     (if length value_tuple \<noteq> 3 \<and> length value_tuple \<noteq> 4 then Inr black
      else
        (let r = value_tuple ! 0; g = value_tuple ! 1; b = value_tuple ! 2;
             a = (if length value_tuple = 4 then value_tuple ! 3 else PyNum 1)
         in ebind (num_of r) (\<lambda>r'.
            ebind (num_of g) (\<lambda>g'.
            ebind (num_of b) (\<lambda>b'.
            ebind (num_of a) (\<lambda>a'.
            Inr \<lparr>rgb = rgb3 (clamp255 r') (clamp255 g') (clamp255 b'),
                 alpha = max 0 (min a' 1)\<rparr>))))))"

text \<open>\<open>tuple(v)\<close> and \<open>float(v)\<close> on a Python value.\<close>

fun py_tuple :: "pyval \<Rightarrow> error + pyval list" where
  "py_tuple (PyTuple xs) = Inr xs"
| "py_tuple (PyList xs) = Inr xs"
| "py_tuple (PyStr s) = Inr (map (\<lambda>c. PyStr [c]) s)"
| "py_tuple (PyDict d) = Inr (map (\<lambda>p. PyStr (fst p)) d)"
| "py_tuple v = Inl TypeError"

fun py_float_val :: "pyval \<Rightarrow> error + real" where
  "py_float_val (PyNum r) = Inr r"
| "py_float_val (PyStr s) = (case py_float s of None \<Rightarrow> Inl ValueError | Some r \<Rightarrow> Inr r)"
| "py_float_val v = Inl TypeError"

text \<open>\<open>k in v\<close> for the two string keys, and \<open>v[k]\<close> for a string key.\<close>

fun py_has_key :: "pyval \<Rightarrow> string \<Rightarrow> error + bool" where
  "py_has_key (PyDict d) k = Inr (k \<in> fst ` set d)"
| "py_has_key (PyStr s) k = Inr (py_contains s k)"
| "py_has_key (PyTuple xs) k = Inr (PyStr k \<in> set xs)"
| "py_has_key (PyList xs) k = Inr (PyStr k \<in> set xs)"
| "py_has_key v k = Inl TypeError"

fun py_getitem :: "pyval \<Rightarrow> string \<Rightarrow> error + pyval" where
  "py_getitem (PyDict d) k = (case map_of d k of None \<Rightarrow> Inl KeyError | Some v \<Rightarrow> Inr v)"
| "py_getitem v k = Inl TypeError"

definition parse_color_dict :: "pyval \<Rightarrow> error + color" where
  "parse_color_dict value_dict =
     ebind (py_has_key value_dict ''rgb'') (\<lambda>has_rgb.
     ebind (if has_rgb then py_has_key value_dict ''alpha'' else Inr False) (\<lambda>has_all.
       if \<not> has_all then Inr black
       else ebind (py_getitem value_dict ''rgb'') (\<lambda>rv.
            ebind (py_tuple rv) (\<lambda>t.
            ebind (py_getitem value_dict ''alpha'') (\<lambda>av.
            ebind (py_float_val av) (\<lambda>a.
            Inr \<lparr>rgb = t, alpha = a\<rparr>))))))"

text \<open>The bare \<open>except\<close> of \<open>_parse_color\<close> turns every exception into the role's default.\<close>

definition parse_color :: "ext \<Rightarrow> pyval \<Rightarrow> string \<Rightarrow> color" where
  "parse_color x v colortype =
     (case (case v of
              PyStr s \<Rightarrow> parse_color_string x s
            | PyTuple t \<Rightarrow> parse_color_tuple t
            | PyList t \<Rightarrow> parse_color_tuple t
            | _ \<Rightarrow> parse_color_dict v)
      of Inr c \<Rightarrow> c
       | Inl e \<Rightarrow> if colortype = ''fg'' then black else white)"

text \<open>\<open>v[i]\<close> for an integer index \<open>i\<close>.\<close>

fun py_index :: "pyval \<Rightarrow> nat \<Rightarrow> error + pyval" where
  "py_index (PyTuple xs) i = (if i < length xs then Inr (xs ! i) else Inl IndexError)"
| "py_index (PyList xs) i = (if i < length xs then Inr (xs ! i) else Inl IndexError)"
| "py_index (PyStr s) i = (if i < length s then Inr (PyStr [s ! i]) else Inl IndexError)"
| "py_index (PyDict d) i = Inl KeyError"
| "py_index v i = Inl TypeError"

fun is_dict :: "pyval \<Rightarrow> bool" where
  "is_dict (PyDict d) = True"
| "is_dict v = False"

definition blend_channel :: "pyval \<Rightarrow> pyval \<Rightarrow> real \<Rightarrow> real \<Rightarrow> nat \<Rightarrow> error + pyval" where
  "blend_channel fg bg fa ba i =
     ebind (py_getitem fg ''rgb'') (\<lambda>frgb.
     ebind (py_index frgb i) (\<lambda>fv.
     ebind (num_of fv) (\<lambda>fc.
     ebind (py_getitem bg ''rgb'') (\<lambda>brgb.
     ebind (py_index brgb i) (\<lambda>bv.
     ebind (num_of bv) (\<lambda>bc.
     Inr (PyNum (of_int (py_trunc (min 255 (fc * fa + bc * ba * (1 - fa))))))))))))"

definition blend_colors :: "ext \<Rightarrow> pyval \<Rightarrow> pyval \<Rightarrow> error + color" where
  "blend_colors x fg0 bg0 =
     (let fg = (if \<not> is_dict fg0 then color_val (parse_color x fg0 ''fg'') else fg0);
          bg = (if \<not> is_dict bg0 then color_val (parse_color x bg0 ''bg'') else bg0)
      in ebind (py_getitem fg ''alpha'') (\<lambda>fav.
         ebind (py_getitem bg ''alpha'') (\<lambda>bav.
         ebind (num_of fav) (\<lambda>fa.
         ebind (num_of bav) (\<lambda>ba.
           if fa = 0 then Inr transparent_black
           else ebind (blend_channel fg bg fa ba 0) (\<lambda>r.
                ebind (blend_channel fg bg fa ba 1) (\<lambda>g.
                ebind (blend_channel fg bg fa ba 2) (\<lambda>b.
                Inr \<lparr>rgb = [r, g, b], alpha = fa + ba * (1 - fa)\<rparr>))))))))"

section \<open>The style cascade\<close>

text \<open>
  A style maps property names to values; a value is a colour dictionary or a string.
\<close>

datatype sval = SStr string | SColor color

type_synonym style = "(string \<times> sval) list"

fun sval_py :: "sval \<Rightarrow> pyval" where
  "sval_py (SStr s) = PyStr s"
| "sval_py (SColor c) = color_val c"

definition INHERITABLE_PROPS :: "string list" where
  "INHERITABLE_PROPS =
     [''color'', ''font-family'', ''font-size'', ''font-weight'',
      ''font-style'', ''line-height'', ''text-indent'', ''visibility'',
      ''opacity'', ''background-color'', ''bgcolor'']"

definition DEFAULT_STYLE :: style where
  "DEFAULT_STYLE =
     [(''color'', SColor black),
      (''background-color'', SColor white),
      (''font-size'', SStr ''16px''),
      (''opacity'', SStr ''1'')]"

definition EXCLUDED_TAGS :: "string list" where
  "EXCLUDED_TAGS = [''script'', ''style'', ''meta'', ''link'', ''noscript'', ''svg'', ''img'', ''title'']"

definition NON_STYLABLE_TAGS :: "string list" where
  "NON_STYLABLE_TAGS = EXCLUDED_TAGS @ [''br'', ''hr'', ''img'', ''meta'', ''link'']"

text \<open>
  \<open>_parse_opacity\<close>. Both \<open>try\<close> blocks have a bare \<open>except\<close>: a parent that
  \<open>float\<close> rejects counts as 1.0, and so does a current value that is not a string
  (it has no \<open>strip\<close>) or that \<open>float\<close> rejects.
\<close>

definition parse_opacity :: "pyval \<Rightarrow> pyval \<Rightarrow> string" where
  "parse_opacity current_value parent_opacity =
     (let parent_alpha = (case py_float_val parent_opacity of Inr r \<Rightarrow> r | Inl e \<Rightarrow> 1);
          current_alpha =
            (case current_value of
               PyStr s \<Rightarrow>
                 (case py_float (filter (\<lambda>c. c \<noteq> CHR ''%'') (py_strip s)) of
                    None \<Rightarrow> 1
                  | Some v \<Rightarrow> max 0 (min 1 (if CHR ''%'' \<in> set s then v / 100 else v)))
             | _ \<Rightarrow> 1)
      in fmt_2f (parent_alpha * current_alpha))"

text \<open>\<open>_parse_font_size\<close>; \<open>float(num)\<close> is outside any \<open>try\<close>.\<close>

definition legacy_sizes :: "(nat \<times> nat) list" where
  "legacy_sizes = [(1, 10), (2, 13), (3, 16), (4, 18), (5, 24), (6, 32), (7, 48)]"

definition parse_font_size :: "ext \<Rightarrow> string \<Rightarrow> error + string" where
  "parse_font_size x value0 =
     (let v = py_lower (py_strip value0)
      in if py_isdigit v \<and> 1 \<le> digits_val 10 v \<and> digits_val 10 v \<le> 7 then
           (case map_of legacy_sizes (digits_val 10 v) of
              Some n \<Rightarrow> Inr (nat_str n @ ''px'')
            | None \<Rightarrow> Inl KeyError)
         else
           (case re_match False FONT_SIZE_RE v of
              Some m \<Rightarrow>
                (case py_float (case group m 1 of Some n \<Rightarrow> n | None \<Rightarrow> []) of
                   None \<Rightarrow> Inl ValueError
                 | Some num \<Rightarrow>
                     if group m 2 = Some ''pt'' then Inr (int_str (py_round (num * 1.333)) @ ''px'')
                     else Inr (float_repr x num @ (case group m 2 of Some u \<Rightarrow> u | None \<Rightarrow> [])))
            | None \<Rightarrow> Inr ''16px''))"

text \<open>\<open>_parse_length\<close> with the default \<open>base_size=16\<close>; \<open>None\<close> when the pattern
  does not match at the start.\<close>

definition parse_length :: "string \<Rightarrow> error + real option" where
  "parse_length v =
     (case re_match False LENGTH_RE v of
        None \<Rightarrow> Inr None
      | Some m \<Rightarrow>
          (case py_float (case group m 1 of Some n \<Rightarrow> n | None \<Rightarrow> []) of
             None \<Rightarrow> Inl ValueError
           | Some num \<Rightarrow>
               if group m 2 = Some ''pt'' then Inr (Some (num * 1.333))
               else if group m 2 = Some ''em'' then Inr (Some (num * 16))
               else if group m 2 = Some ''rem'' then Inr (Some (num * 16))
               else if group m 2 = Some ''%'' then Inr (Some (num / 100 * 16))
               else Inr (Some num)))"

text \<open>\<open>_parse_length(str(v))\<close> on a style value: the text of a dictionary starts with a
  brace, which the pattern does not match.\<close>

fun parse_length_sval :: "sval \<Rightarrow> error + real option" where
  "parse_length_sval (SStr s) = parse_length s"
| "parse_length_sval (SColor c) = Inr None"

fun fold_err :: "('a \<Rightarrow> 's \<Rightarrow> error + 's) \<Rightarrow> 'a list \<Rightarrow> 's \<Rightarrow> error + 's" where
  "fold_err f [] s = Inr s"
| "fold_err f (a # as) s = ebind (f a s) (fold_err f as)"

text \<open>
  \<open>_parse_node_style\<close>, in the order of the source: the \<open>font\<close> attributes, the legacy
  presentational attributes, the inline declarations, and the accumulated opacity last.
  The state carried through the steps is the style under construction and
  \<open>current_opacity\<close>.
\<close>

definition set_color :: "ext \<Rightarrow> string \<Rightarrow> style \<times> string \<Rightarrow> style \<times> string" where
  "set_color x v st =
     (let c = parse_color x (PyStr v) ''fg''
      in (dict_set ''color'' (SColor c) (fst st), parse_opacity (PyNum (alpha c)) (PyStr (snd st))))"

definition font_attrs :: "ext \<Rightarrow> string \<Rightarrow> (string \<times> string) list \<Rightarrow> style \<times> string
    \<Rightarrow> error + (style \<times> string)" where
  "font_attrs x name attrs st =
     (if name \<noteq> ''font'' then Inr st
      else
        (let st1 = (case map_of attrs ''color'' of None \<Rightarrow> st | Some v \<Rightarrow> set_color x v st)
         in case map_of attrs ''size'' of
              None \<Rightarrow> Inr st1
            | Some v \<Rightarrow> ebind (parse_font_size x v)
                         (\<lambda>fs. Inr (dict_set ''font-size'' (SStr fs) (fst st1), snd st1))))"

definition align_map :: "(string \<times> string) list" where
  "align_map = [(''left'', ''left''), (''right'', ''right''), (''center'', ''center''),
                (''middle'', ''center''), (''justify'', ''justify'')]"

definition bgcolor_attr :: "ext \<Rightarrow> (string \<times> string) list \<Rightarrow> style \<Rightarrow> error + style" where
  "bgcolor_attr x attrs sty =
     (case map_of attrs ''bgcolor'' of
        None \<Rightarrow> Inr sty
      | Some v \<Rightarrow>
          (let parsed_color = parse_color x (PyStr v) ''bg''
           in case map_of sty ''background-color'' of
                Some existing_bg \<Rightarrow>
                  ebind (blend_colors x (color_val parsed_color) (sval_py existing_bg))
                    (\<lambda>new_bg. Inr (dict_set ''background-color'' (SColor new_bg) sty))
              | None \<Rightarrow> Inr (dict_set ''background-color'' (SColor parsed_color) sty)))"

definition table_attrs :: "ext \<Rightarrow> string \<Rightarrow> (string \<times> string) list \<Rightarrow> style \<times> string
    \<Rightarrow> error + (style \<times> string)" where
  "table_attrs x name attrs st =
     (if name \<notin> set [''table'', ''tr'', ''td'', ''th'', ''font'', ''body''] then Inr st
      else
        ebind (bgcolor_attr x attrs (fst st)) (\<lambda>sty1.
          (let st2 = (case map_of attrs ''text'' of
                        None \<Rightarrow> (sty1, snd st)
                      | Some v \<Rightarrow> set_color x v (sty1, snd st));
               sty3 = (case map_of attrs ''align'' of
                         None \<Rightarrow> fst st2
                       | Some v \<Rightarrow>
                           dict_set ''text-align''
                             (SStr (case map_of align_map (py_lower v) of
                                      Some a \<Rightarrow> a | None \<Rightarrow> ''left'')) (fst st2));
               sty4 = (case map_of attrs ''width'' of
                         None \<Rightarrow> sty3
                       | Some w \<Rightarrow>
                           dict_set ''width''
                             (SStr (if re_match False DIGITS_RE w \<noteq> None then w @ ''px'' else w)) sty3)
           in Inr (sty4, snd st2))))"

definition inline_decl :: "ext \<Rightarrow> string \<times> string \<Rightarrow> style \<times> string
    \<Rightarrow> error + (style \<times> string)" where
  "inline_decl x pv st =
     (let prop = py_lower (fst pv); v = snd pv
      in if prop = ''background-color'' \<or> prop = ''bgcolor'' then
           Inr (dict_set ''background-color'' (SColor (parse_color x (PyStr v) ''bg'')) (fst st), snd st)
         else if prop = ''color'' then Inr (set_color x v st)
         else if prop = ''font-size'' then
           ebind (parse_font_size x v) (\<lambda>fs. Inr (dict_set prop (SStr fs) (fst st), snd st))
         else if prop = ''opacity'' then Inr (fst st, parse_opacity (PyStr v) (PyStr (snd st)))
         else Inr (dict_set prop (SStr v) (fst st), snd st))"

text \<open>\<open>dict(STYLE_PROP_RE.findall(node['style']))\<close>\<close>

definition inline_style_dict :: "string \<Rightarrow> (string \<times> string) list" where
  "inline_style_dict s =
     dict_of_pairs (map (\<lambda>(b, e, g). (case group g 1 of Some p \<Rightarrow> p | None \<Rightarrow> [],
                                       case group g 2 of Some v \<Rightarrow> v | None \<Rightarrow> []))
                        (finditer True STYLE_PROP_RE s))"

definition inline_style :: "ext \<Rightarrow> (string \<times> string) list \<Rightarrow> style \<times> string
    \<Rightarrow> error + (style \<times> string)" where
  "inline_style x node_attrs st =
     (case map_of node_attrs ''style'' of
        None \<Rightarrow> Inr st
      | Some s \<Rightarrow> fold_err (inline_decl x) (inline_style_dict s) st)"

fun parse_node_style :: "ext \<Rightarrow> node \<Rightarrow> style \<Rightarrow> error + style" where
  "parse_node_style x (Str k s) inherited_style = Inl AttributeError"
| "parse_node_style x (Tag name node_attrs cs) inherited_style =
     (let current_opacity =
            parse_opacity
              (PyStr (case map_of node_attrs ''opacity'' of Some v \<Rightarrow> v | None \<Rightarrow> ''1''))
              (case map_of inherited_style ''opacity'' of Some v \<Rightarrow> sval_py v | None \<Rightarrow> PyStr ''1.0'');
          attrs = dict_of_pairs (map (\<lambda>(k, v). (py_lower k, v)) node_attrs)
      in ebind (font_attrs x name attrs (inherited_style, current_opacity)) (\<lambda>st1.
         ebind (table_attrs x name attrs st1) (\<lambda>st2.
         ebind (inline_style x node_attrs st2) (\<lambda>st3.
         Inr (dict_set ''opacity'' (SStr (snd st3)) (fst st3))))))"

text \<open>The snapshot handed to the next node of the path.\<close>

definition inheritable :: "style \<Rightarrow> style" where
  "inheritable sty = filter (\<lambda>kv. fst kv \<in> set INHERITABLE_PROPS) sty"

section \<open>The visibility classifier\<close>

text \<open>
  The reason strings of the source are tags with an optional formatted value; the value
  is kept unformatted.
\<close>

datatype reason =
  R_visibility
  | R_display_none
  | R_opacity string
  | R_same_color
  | R_low_contrast real
  | R_position_offset
  | R_clipping
  | R_font_too_small real
  | R_filter_effect

fun nums_of :: "pyval list \<Rightarrow> error + real list" where
  "nums_of [] = Inr []"
| "nums_of (v # vs) = ebind (num_of v) (\<lambda>r. ebind (nums_of vs) (\<lambda>rs. Inr (r # rs)))"

definition linearize :: "real \<Rightarrow> real" where
  "linearize c0 = (let c = c0 / 255 in if c \<le> 0.03928 then c / 12.92 else ((c + 0.055) / 1.055) powr 2.4)"

definition luminance :: "pyval list \<Rightarrow> error + real" where
  "luminance channels =
     ebind (nums_of (map snd (zip [0.2126, 0.7152, 0.0722 :: real] channels)))
       (\<lambda>cs. Inr (sum_list (map (\<lambda>(coeff, c). coeff * linearize c) (zip [0.2126, 0.7152, 0.0722] cs))))"

definition calculate_contrast :: "color \<Rightarrow> color \<Rightarrow> error + real" where
  "calculate_contrast fg bg =
     ebind (luminance (rgb fg)) (\<lambda>l1'.
     ebind (luminance (rgb bg)) (\<lambda>l2'.
       (let l1 = l1' + 0.05; l2 = l2' + 0.05
        in if min l1 l2 = 0 then Inl ZeroDivisionError
           else Inr (py_round2 (max l1 l2 / min l1 l2)))))"

fun any_err :: "('a \<Rightarrow> error + bool) \<Rightarrow> 'a list \<Rightarrow> error + bool" where
  "any_err f [] = Inr False"
| "any_err f (a # as) = ebind (f a) (\<lambda>b. if b then Inr True else any_err f as)"

definition is_large_offset :: "sval \<Rightarrow> error + bool" where
  "is_large_offset v =
     ebind (parse_length_sval v)
       (\<lambda>parsed. Inr (case parsed of None \<Rightarrow> False | Some p \<Rightarrow> p \<noteq> 0 \<and> 1000 < \<bar>p\<bar>))"

text \<open>The source iterates over a set of property names; the order written there is used.\<close>

definition offset_props :: "string list" where
  "offset_props = [''left'', ''right'', ''top'', ''bottom'', ''margin-left'', ''margin-right'',
                   ''margin-top'', ''margin-bottom'', ''text-indent'']"

definition check_position_offset :: "style \<Rightarrow> error + bool" where
  "check_position_offset sty =
     any_err (\<lambda>prop. is_large_offset (case map_of sty prop of Some v \<Rightarrow> v | None \<Rightarrow> SStr ''0''))
       offset_props"

fun is_hidden_clip :: "sval \<Rightarrow> error + bool" where
  "is_hidden_clip (SStr s) =
     Inr (list_ex (py_contains (py_lower s)) [''inset(100%'', ''rect(0'', ''circle(0'', ''polygon(0 0''])"
| "is_hidden_clip (SColor c) = Inl AttributeError"

definition check_clipping :: "style \<Rightarrow> error + bool" where
  "check_clipping sty =
     any_err (\<lambda>prop. case map_of sty prop of None \<Rightarrow> Inr False | Some v \<Rightarrow> is_hidden_clip v)
       [''clip-path'', ''clip'']"

definition py_strip_char :: "char \<Rightarrow> string \<Rightarrow> string" where
  "py_strip_char c s = rev (dropWhile (\<lambda>d. d = c) (rev (dropWhile (\<lambda>d. d = c) s)))"

definition is_hiding_filter :: "string \<Rightarrow> error + bool" where
  "is_hiding_filter filter_func0 =
     (let filter_func = py_lower filter_func0
      in if py_startswith filter_func ''opacity('' then
           (case py_float (py_strip_char CHR ''%'' (py_slice_to_last filter_func 7)) of
              None \<Rightarrow> Inl ValueError
            | Some v \<Rightarrow> Inr (v \<le> 5))
         else if py_startswith filter_func ''blur('' then
           ebind (parse_length (py_slice_to_last filter_func 5))
             (\<lambda>p. case p of None \<Rightarrow> Inl TypeError | Some v \<Rightarrow> Inr (10 < v))
         else Inr False)"

definition check_filter :: "style \<Rightarrow> error + bool" where
  "check_filter sty =
     (case map_of sty ''filter'' of
        None \<Rightarrow> Inr False
      | Some (SStr s) \<Rightarrow> any_err is_hiding_filter (py_split s)
      | Some (SColor c) \<Rightarrow> Inl AttributeError)"

text \<open>\<open>float(style.get('opacity', 1)) <= 0.01\<close>\<close>

definition opacity_reason :: "style \<Rightarrow> error + reason list" where
  "opacity_reason sty =
     (case map_of sty ''opacity'' of
        None \<Rightarrow> Inr []
      | Some (SStr s) \<Rightarrow>
          (case py_float s of
             None \<Rightarrow> Inl ValueError
           | Some v \<Rightarrow> Inr (if v \<le> 0.01 then [R_opacity s] else []))
      | Some (SColor c) \<Rightarrow> Inl TypeError)"

definition font_size_reason :: "style \<Rightarrow> error + reason list" where
  "font_size_reason sty =
     ebind (parse_length_sval (case map_of sty ''font-size'' of Some v \<Rightarrow> v | None \<Rightarrow> SStr ''16px''))
       (\<lambda>font_size. case font_size of
                       None \<Rightarrow> Inl TypeError
                     | Some v \<Rightarrow> Inr (if v < 3 then [R_font_too_small v] else []))"

definition check_visibility :: "ext \<Rightarrow> style \<Rightarrow> error + (bool \<times> reason list)" where
  "check_visibility x sty =
     (let r1 = (if map_of sty ''visibility'' = Some (SStr ''hidden'')
                   \<or> map_of sty ''visibility'' = Some (SStr ''collapse'')
                then [R_visibility] else []);
          r2 = (if map_of sty ''display'' = Some (SStr ''none'') then [R_display_none] else [])
      in ebind (opacity_reason sty) (\<lambda>r3.
         case map_of sty ''color'' of
           None \<Rightarrow> Inl KeyError
         | Some cv \<Rightarrow>
           (let final_fg = parse_color x (sval_py cv) ''fg'';
                bg = parse_color x (case map_of sty ''background-color'' of
                                      Some v \<Rightarrow> sval_py v | None \<Rightarrow> PyNone) ''bg''
            in ebind (blend_colors x (color_val bg) (color_val white)) (\<lambda>blended.
               (let final_bg = parse_color x (color_val blended) ''fg''
                in ebind (calculate_contrast final_fg final_bg) (\<lambda>contrast.
                   (let r4 = (if final_fg = final_bg then [R_same_color]
                              else if contrast < 1.05 then [R_low_contrast contrast]
                              else [])
                    in ebind (check_position_offset sty) (\<lambda>off.
                       ebind (check_clipping sty) (\<lambda>clip.
                       ebind (font_size_reason sty) (\<lambda>r7.
                       ebind (check_filter sty) (\<lambda>fil.
                         (let reasons = r1 @ r2 @ r3 @ r4
                                @ (if off then [R_position_offset] else [])
                                @ (if clip then [R_clipping] else [])
                                @ r7
                                @ (if fil then [R_filter_effect] else [])
                          in Inr (reasons = [], reasons)))))))))))))"

section \<open>Tree preprocessing and path collection\<close>

fun is_tag :: "node \<Rightarrow> bool" where
  "is_tag (Tag n a cs) = True"
| "is_tag (Str k s) = False"

fun children :: "node \<Rightarrow> node list" where
  "children (Tag n a cs) = cs"
| "children (Str k s) = []"

fun is_valid_node :: "node \<Rightarrow> bool" where
  "is_valid_node (Tag n a cs) = (n \<notin> set NON_STYLABLE_TAGS)"
| "is_valid_node (Str k s) = False"

text \<open>
  \<open>stripped_strings\<close> of the library: the strings below a node whose class is exactly
  \<open>NavigableString\<close> or \<open>CData\<close>, stripped, the empty ones dropped.
\<close>

fun stripped_strings :: "node \<Rightarrow> string list" where
  "stripped_strings (Tag n a cs) = concat (map stripped_strings cs)"
| "stripped_strings (Str k s) =
     (if (k = KText \<or> k = KCData) \<and> py_strip s \<noteq> [] then [py_strip s] else [])"

definition has_any_text :: "node \<Rightarrow> bool" where
  "has_any_text node = list_ex (\<lambda>c. py_strip c \<noteq> []) (stripped_strings node)"

definition has_meaningful_children :: "node \<Rightarrow> bool" where
  "has_meaningful_children node = list_ex (\<lambda>child. is_tag child \<and> is_valid_node child) (children node)"

text \<open>
  \<open>_prune_empty_nodes\<close> returns whether the node is empty, and removes the empty children
  in place; the model returns the node as it is left, with the flag.
\<close>

fun prune_empty_nodes :: "node \<Rightarrow> node \<times> bool" where
  "prune_empty_nodes (Str k s) = (Str k s, False)"
| "prune_empty_nodes (Tag n a cs) =
     (let kept = map fst (filter (\<lambda>r. \<not> snd r) (map prune_empty_nodes cs));
          node = Tag n a kept
      in (node, \<not> has_any_text node \<and> \<not> has_meaningful_children node))"

text \<open>\<open>soup.find(name)\<close>: the first element of that name below the document, in document
  order; \<open>on_first\<close> rewrites that element in place.\<close>

fun find_tag :: "string \<Rightarrow> node \<Rightarrow> node option"
  and find_tag_list :: "string \<Rightarrow> node list \<Rightarrow> node option" where
  "find_tag nm (Str k s) = None"
| "find_tag nm (Tag n a cs) = (if n = nm then Some (Tag n a cs) else find_tag_list nm cs)"
| "find_tag_list nm [] = None"
| "find_tag_list nm (c # cs) =
     (case find_tag nm c of Some r \<Rightarrow> Some r | None \<Rightarrow> find_tag_list nm cs)"

fun on_first :: "(node \<Rightarrow> node) \<Rightarrow> string \<Rightarrow> node \<Rightarrow> node option"
  and on_first_list :: "(node \<Rightarrow> node) \<Rightarrow> string \<Rightarrow> node list \<Rightarrow> node list option" where
  "on_first f nm (Str k s) = None"
| "on_first f nm (Tag n a cs) =
     (if n = nm then Some (f (Tag n a cs)) else map_option (Tag n a) (on_first_list f nm cs))"
| "on_first_list f nm [] = None"
| "on_first_list f nm (c # cs) =
     (case on_first f nm c of
        Some c' \<Rightarrow> Some (c' # cs)
      | None \<Rightarrow> map_option ((#) c) (on_first_list f nm cs))"

text \<open>\<open>_prune_tree\<close>: prune below the body, or below the document when it has no body.\<close>

definition prune_tree :: "node \<Rightarrow> node" where
  "prune_tree soup =
     (case on_first_list (\<lambda>body. fst (prune_empty_nodes body)) ''body'' (children soup) of
        Some cs \<Rightarrow> (case soup of Tag n a old \<Rightarrow> Tag n a cs | Str k s \<Rightarrow> soup)
      | None \<Rightarrow> fst (prune_empty_nodes soup))"

definition content_root :: "node \<Rightarrow> node" where
  "content_root soup = (case find_tag_list ''body'' (children soup) of Some b \<Rightarrow> b | None \<Rightarrow> soup)"

text \<open>\<open>_is_leaf\<close>. Every string node is a \<open>str\<close>, comments included.\<close>

fun has_stylable_descendant :: "node \<Rightarrow> bool" where
  "has_stylable_descendant (Str k s) = False"
| "has_stylable_descendant (Tag n a cs) =
     list_ex (\<lambda>c. is_valid_node c \<or> has_stylable_descendant c) cs"

fun is_nonblank_string :: "node \<Rightarrow> bool" where
  "is_nonblank_string (Str k s) = (py_strip s \<noteq> [])"
| "is_nonblank_string (Tag n a cs) = False"

fun is_unstylable_tag :: "node \<Rightarrow> bool" where
  "is_unstylable_tag (Tag n a cs) = (n \<in> set NON_STYLABLE_TAGS)"
| "is_unstylable_tag (Str k s) = False"

definition is_leaf :: "node \<Rightarrow> bool" where
  "is_leaf node =
     (is_tag node \<and>
      (let has_self_text = list_ex is_nonblank_string (children node);
           all_children_unstylable = list_all is_unstylable_tag (children node)
       in has_self_text \<or> (all_children_unstylable \<and> \<not> has_stylable_descendant node)))"

text \<open>\<open>collect_paths\<close>: the queue holds a node with the path that leads to it.\<close>

function collect_queue :: "(node \<times> node list) list \<Rightarrow> node list list" where
  "collect_queue [] = []"
| "collect_queue ((node, path) # queue) =
     (if \<not> is_tag node then collect_queue queue
      else if \<not> is_valid_node node then collect_queue queue
      else if is_leaf node then (path @ [node]) # collect_queue queue
      else collect_queue (queue @ map (\<lambda>child. (child, path @ [node]))
                                      (filter is_valid_node (children node))))"
  by pat_completeness auto
termination
proof (relation "measure (\<lambda>q. sum_list (map (\<lambda>e. Suc (size (fst e))) q))", goal_cases)
  case 1
  show ?case by simp
next
  case (2 node path queue)
  show ?case by simp
next
  case (3 node path queue)
  show ?case by simp
next
  case (4 node path queue)
  show ?case by simp
next
  case (5 node path queue)
  have le: "sum_list (map (\<lambda>c. Suc (size c)) (filter is_valid_node cs)) \<le> size_list size cs"
    for cs :: "node list"
    by (induction cs) auto
  have "sum_list (map (\<lambda>c. Suc (size c)) (filter is_valid_node (children node))) < Suc (size node)"
  proof (cases node)
    case (Tag n a cs)
    with le [of cs] show ?thesis by simp
  next
    case (Str k s)
    then show ?thesis by simp
  qed
  then show ?case
    by (simp add: comp_def)
qed

definition collect_paths :: "node \<Rightarrow> node list list" where
  "collect_paths soup = collect_queue [(content_root soup, [])]"

section \<open>The conditional-comment normaliser\<close>

text \<open>\<open>re.sub(re.escape(p), r, s)\<close>: every occurrence of the literal \<open>p\<close>, left to right.\<close>

function py_replace :: "string \<Rightarrow> string \<Rightarrow> string \<Rightarrow> string" where
  "py_replace p r [] = []"
| "py_replace p r (c # cs) =
     (if p \<noteq> [] \<and> py_startswith (c # cs) p then r @ py_replace p r (drop (length p) (c # cs))
      else c # py_replace p r cs)"
  by pat_completeness auto
termination
  by (relation "measure (\<lambda>(p, r, s). length s)") auto

text \<open>The \<open>defaultdict(list)\<close> keyed by the stripped condition.\<close>

definition condition_map :: "string \<Rightarrow> (string \<times> string list) list" where
  "condition_map content =
     foldl (\<lambda>m (b, e, g).
              (let condition = py_strip (case group g 1 of Some c \<Rightarrow> c | None \<Rightarrow> []);
                   html_fragment = (case group g 2 of Some f \<Rightarrow> f | None \<Rightarrow> [])
               in dict_set condition
                    ((case map_of m condition of Some fs \<Rightarrow> fs | None \<Rightarrow> []) @ [html_fragment]) m))
           [] (finditer True SPLIT_CONDITIONAL_RE content)"

definition replacements :: "string \<Rightarrow> (string \<times> string) list" where
  "replacements content =
     concat (map (\<lambda>(cond, fragments).
                    if 1 < length fragments then
                      (let merged_html = ''<!--[cond:'' @ cond @ '']-->'' @ concat fragments
                                         @ ''<!--[endcond]-->''
                       in map (\<lambda>f. (''<![if '' @ cond @ '']>'' @ f @ ''<!$$endif$$>'', merged_html))
                              fragments)
                    else [])
                 (condition_map content))"

text \<open>The markup that \<open>_handle_split_conditionals\<close> hands to the parser, and its result.\<close>

definition merged_content :: "string \<Rightarrow> string" where
  "merged_content content =
     foldl (\<lambda>c (pattern, replacement). py_replace pattern replacement c) content (replacements content)"

definition handle_split_conditionals :: "ext \<Rightarrow> string \<Rightarrow> node" where
  "handle_split_conditionals x content = bs_parse x (merged_content content)"

text \<open>The constructor of \<open>DOMAnalyzer\<close>: normalise, parse, prune.\<close>

definition dom_analyzer :: "ext \<Rightarrow> string \<Rightarrow> node" where
  "dom_analyzer x html_content = prune_tree (handle_split_conditionals x html_content)"

section \<open>The document analyser\<close>

record arecord =
  r_text :: string
  r_type :: string
  r_url :: "string option"
  r_style :: "style option"
  r_visible :: bool
  r_hidden_reasons :: "reason list option"

text \<open>\<open>_get_node_text\<close>: the direct strings that are neither comments nor declarations.\<close>

fun direct_text :: "node \<Rightarrow> string list" where
  "direct_text (Str k s) = (if k \<noteq> KComment \<and> k \<noteq> KDeclaration \<and> py_strip s \<noteq> [] then [py_strip s] else [])"
| "direct_text (Tag n a cs) = []"

definition get_node_text :: "node \<Rightarrow> string" where
  "get_node_text node = py_strip (py_join_space (concat (map direct_text (children node))))"

definition get_link_text :: "node \<Rightarrow> string" where
  "get_link_text node = py_join_space (stripped_strings node)"

fun node_attrs :: "node \<Rightarrow> (string \<times> string) list" where
  "node_attrs (Tag n a cs) = a"
| "node_attrs (Str k s) = []"

fun node_name :: "node \<Rightarrow> string" where
  "node_name (Tag n a cs) = n"
| "node_name (Str k s) = []"

definition process_anchor_tag :: "ext \<Rightarrow> node \<Rightarrow> style \<Rightarrow> error + arecord option" where
  "process_anchor_tag x node inherited_style =
     (let text = get_link_text node
      in if text = [] then Inr None
         else ebind (parse_node_style x node inherited_style) (\<lambda>link_style.
              ebind (check_visibility x link_style) (\<lambda>(visible, reasons).
              Inr (Some \<lparr>r_text = text, r_type = ''link'',
                         r_url = Some (case map_of (node_attrs node) ''href'' of
                                         Some u \<Rightarrow> u | None \<Rightarrow> []),
                         r_style = Some link_style, r_visible = visible,
                         r_hidden_reasons = Some (if \<not> visible then reasons else [])\<rparr>))))"

text \<open>
  The inner loop of \<open>analyze_paths\<close> over the nodes of one path. The accumulator is the
  record list with \<open>file_visible\<close>; an anchor ends the path.
\<close>

fun walk_path :: "ext \<Rightarrow> node list \<Rightarrow> style \<Rightarrow> arecord list \<times> bool
    \<Rightarrow> error + (arecord list \<times> bool)" where
  "walk_path x [] inherited_style acc = Inr acc"
| "walk_path x (node # rest) inherited_style acc =
     (if node_name node = ''a'' then
        ebind (process_anchor_tag x node inherited_style) (\<lambda>link_result.
          Inr (case link_result of
                 Some r \<Rightarrow> (fst acc @ [r], snd acc)
               | None \<Rightarrow> acc))
      else
        ebind (parse_node_style x node inherited_style) (\<lambda>current_style.
        ebind (let text_content = get_node_text node
               in if text_content \<noteq> [] then
                    ebind (check_visibility x current_style) (\<lambda>(visible, reasons).
                      Inr (fst acc @ [\<lparr>r_text = text_content, r_type = ''text'',
                                         r_url = None, r_style = Some current_style,
                                         r_visible = visible,
                                         r_hidden_reasons = Some (if \<not> visible then reasons else [])\<rparr>],
                           if \<not> visible then False else snd acc))
                  else Inr acc) (\<lambda>acc'.
        walk_path x rest (inheritable current_style) acc')))"

definition walk_paths :: "ext \<Rightarrow> node list list \<Rightarrow> error + (arecord list \<times> bool)" where
  "walk_paths x paths = fold_err (\<lambda>path acc. walk_path x path DEFAULT_STYLE acc) paths ([], True)"

text \<open>The comment nodes of the whole document, in document order, each with its parent.\<close>

fun comments_in :: "node \<Rightarrow> (string \<times> node) list" where
  "comments_in (Str k s) = []"
| "comments_in (Tag n a cs) =
     concat (map (\<lambda>c. case c of
                         Str k s \<Rightarrow> if k = KComment then [(s, Tag n a cs)] else []
                       | Tag n' a' cs' \<Rightarrow> comments_in c) cs)"

definition is_conditional_container :: "node \<Rightarrow> bool" where
  "is_conditional_container parent =
     (node_name parent = ''div'' \<and>
      ''conditional-container'' \<in> set (py_split (case map_of (node_attrs parent) ''class'' of
                                                   Some c \<Rightarrow> c | None \<Rightarrow> [])))"

text \<open>
  \<open>analyze_paths\<close> and \<open>_process_comments\<close>. A merged conditional block is analysed by a
  new analyser built from the text of its parent, and that analyser processes its own
  comments in turn. The first argument bounds this nesting, as the interpreter's recursion
  limit does: when it is used up the result is RecursionError.
\<close>

function analyze_paths :: "nat \<Rightarrow> ext \<Rightarrow> node \<Rightarrow> node list list \<Rightarrow> error + (arecord list \<times> bool)"
  and process_comments :: "nat \<Rightarrow> ext \<Rightarrow> (string \<times> node) list \<Rightarrow> error + arecord list" where
  "analyze_paths d x soup paths =
     ebind (walk_paths x paths) (\<lambda>(results, file_visible).
     ebind (process_comments d x (comments_in soup)) (\<lambda>comment_results.
     Inr (results @ comment_results, file_visible)))"
| "process_comments d x [] = Inr []"
| "process_comments d x ((comment, parent) # rest) =
     (let text = py_strip comment
      in if py_startswith text ''[cond:'' then
           (if is_conditional_container parent then
              (case d of
                 0 \<Rightarrow> Inl RecursionError
               | Suc d' \<Rightarrow>
                   (let soup' = dom_analyzer x (bs_str x parent)
                    in ebind (analyze_paths d' x soup' (collect_paths soup')) (\<lambda>(elements, v).
                       ebind (process_comments d x rest) (\<lambda>more.
                       Inr (map (\<lambda>elem. elem\<lparr>r_type := ''conditional_comment'', r_visible := False\<rparr>)
                                elements @ more)))))
            else process_comments d x rest)
         else
           ebind (process_comments d x rest) (\<lambda>more.
           Inr (\<lparr>r_text = text, r_type = ''html_comment'', r_url = None, r_style = None,
                 r_visible = False, r_hidden_reasons = None\<rparr> # more)))"
  by pat_completeness auto
termination
  by (relation "inv_image (less_than <*lex*> less_than <*lex*> less_than)
        (\<lambda>s. case s of
                Inl (d, x, soup, paths) \<Rightarrow> (d, 1 :: nat, 0 :: nat)
              | Inr (d, x, cs) \<Rightarrow> (d, 0, length cs))") auto

text \<open>One document, as \<open>process_html_file\<close> drives the analyser.\<close>

definition analyze_document :: "nat \<Rightarrow> ext \<Rightarrow> string \<Rightarrow> error + (arecord list \<times> bool)" where
  "analyze_document d x html_content =
     (let soup = dom_analyzer x html_content
      in analyze_paths d x soup (collect_paths soup))"

section \<open>A concrete environment for the examples\<close>

text \<open>
  The theorems hold for every colour-name table and every float formatter. The examples
  are evaluated with a fragment of the CSS colour names, a formatter that prints the
  integral part only, and a parser that reads its input as one text node.
\<close>

definition example_ext :: ext where
  "example_ext =
     \<lparr>name_to_rgb = map_of [(''black'', (0, 0, 0)), (''white'', (255, 255, 255)),
                            (''red'', (255, 0, 0)), (''blue'', (0, 0, 255))],
      float_repr = (\<lambda>r. int_str \<lfloor>r\<rfloor> @ ''.0''),
      bs_parse = (\<lambda>s. Tag ''[document]'' [] [Str KText s]),
      bs_str = (\<lambda>n. [])\<rparr>"

section \<open>Predicates and documents of the statements\<close>

text \<open>The four properties of the default style, as keys of a style.\<close>

definition has_default_keys :: "style \<Rightarrow> bool" where
  "has_default_keys s =
     (''color'' \<in> fst ` set s \<and> ''background-color'' \<in> fst ` set s
      \<and> ''font-size'' \<in> fst ` set s \<and> ''opacity'' \<in> fst ` set s)"

text \<open>A record that carries a style carries one with the four default keys.\<close>

definition styled_ok :: "arecord \<Rightarrow> bool" where
  "styled_ok r = (case r_style r of None \<Rightarrow> True | Some s \<Rightarrow> has_default_keys s)"

text \<open>
  The tree of \<^verbatim>\<open><body><a href="http://x" style="display:none">click</a></body>\<close>,
  and the style the cascade resolves for its anchor.
\<close>

definition hidden_link :: node where
  "hidden_link = Tag ''a'' [(''href'', ''http://x''), (''style'', ''display:none'')] [Str KText ''click'']"

definition hidden_link_doc :: node where
  "hidden_link_doc = Tag ''[document]'' [] [Tag ''body'' [] [hidden_link]]"

definition hidden_link_style :: style where
  "hidden_link_style =
     [(''color'', SColor black), (''background-color'', SColor white),
      (''font-size'', SStr ''16px''), (''opacity'', SStr ''1.00''), (''display'', SStr ''none'')]"

text \<open>
  The tree of \<^verbatim>\<open><body><p style="color:#fff;background-color:#fff">hello</p></body>\<close>,
  and the style the cascade resolves for its paragraph.
\<close>

definition same_color_par :: node where
  "same_color_par = Tag ''p'' [(''style'', ''color:#fff;background-color:#fff'')] [Str KText ''hello'']"

definition same_color_doc :: node where
  "same_color_doc = Tag ''[document]'' [] [Tag ''body'' [] [same_color_par]]"

definition same_color_style :: style where
  "same_color_style =
     [(''color'', SColor white), (''background-color'', SColor white),
      (''font-size'', SStr ''16px''), (''opacity'', SStr ''1.00'')]"





text \<open>Every record of type \<open>text\<close> is marked visible.\<close>

definition text_records_visible :: "arecord list \<Rightarrow> bool" where
  "text_records_visible rs = list_all r_visible (filter (\<lambda>r. r_type r = ''text'') rs)"

section \<open>Properties\<close>

subsection \<open>Sequencing of results\<close>

lemma ebind_InrE: "ebind m f = Inr y \<Longrightarrow> (\<And>a. m = Inr a \<Longrightarrow> f a = Inr y \<Longrightarrow> P) \<Longrightarrow> P"
  by (cases m) auto

lemma ebind_Inl_iff: "(ebind m f = Inl e) = (m = Inl e \<or> (\<exists>a. m = Inr a \<and> f a = Inl e))"
  by (cases m) auto

lemma ebind_no_key:
  "m \<noteq> Inl KeyError \<Longrightarrow> (\<And>a. m = Inr a \<Longrightarrow> f a \<noteq> Inl KeyError) \<Longrightarrow> ebind m f \<noteq> Inl KeyError"
  by (cases m) auto

subsection \<open>The colour parser\<close>

text \<open>
  Claim C4. Every colour produced by the colour parser has its alpha in [0,1] and its
  channels in [0,255]. The tuple form clamps, but the functional notations do not:
  \<open>rgb(300,0,0)\<close> yields a channel of 300 and \<open>rgba(0,0,0,5)\<close> an alpha of 5.
\<close>

theorem parse_color_rgb_unclamped:
  "parse_color x (PyStr ''rgb(300,0,0)'') ''fg'' = \<lparr>rgb = rgb3 300 0 0, alpha = 1\<rparr>
   \<and> parse_color x (PyStr ''rgba(0,0,0,5)'') ''bg'' = \<lparr>rgb = rgb3 0 0 0, alpha = 5\<rparr>"
  by code_simp

text \<open>
  Claim C5. A value that matches none of the accepted colour forms yields the default of
  the role, black for the foreground and white for the background, and nothing is raised.
  Nothing is raised indeed (\<open>parse_color\<close> returns a colour), and \<open>None\<close> in the
  background role gives white; but a tuple of the wrong length and a mapping without
  \<open>alpha\<close> give black in the background role.
\<close>

theorem parse_color_bg_malformed_container:
  "parse_color x (PyTuple [PyNum 1, PyNum 2]) ''bg'' = black
   \<and> parse_color x (PyDict [(''rgb'', PyTuple [PyNum 1, PyNum 2, PyNum 3])]) ''bg'' = black
   \<and> parse_color x PyNone ''bg'' = white"
  by code_simp

subsection \<open>The cascade\<close>

text \<open>
  Claim C3. The alpha of a colour declared by an inline \<open>color\<close> or by the \<open>color\<close>
  attribute of a \<open>font\<close> element is folded into the accumulated opacity. The alpha
  reaches \<open>_parse_opacity\<close> as a float, which has no \<open>strip\<close>; the bare \<open>except\<close>
  makes the factor 1.0. Below, colours of alpha 0 and 1/2 on the default style leave the
  opacity at 1.00.
\<close>

theorem color_alpha_not_folded:
  "parse_node_style x (Tag ''font'' [(''color'', ''#00000000'')] [Str KText ''x'']) DEFAULT_STYLE
     = Inr [(''color'', SColor \<lparr>rgb = rgb3 0 0 0, alpha = 0\<rparr>),
            (''background-color'', SColor white),
            (''font-size'', SStr ''16px''),
            (''opacity'', SStr ''1.00'')]
   \<and> parse_node_style x (Tag ''span'' [(''style'', ''color: rgba(0,0,0,0.5)'')] [Str KText ''x''])
         DEFAULT_STYLE
     = Inr [(''color'', SColor \<lparr>rgb = rgb3 0 0 0, alpha = 1 / 2\<rparr>),
            (''background-color'', SColor white),
            (''font-size'', SStr ''16px''),
            (''opacity'', SStr ''1.00'')]"
  by code_simp

text \<open>
  Claim C10. For every input the font-size normaliser returns a string \<open><number>px\<close>,
  \<open><number>em\<close> or \<open><number>%\<close>, so that the comparison with the 3px threshold is
  total. The pattern of the normaliser admits several points in the number, and
  \<open>float\<close> rejects them outside any \<open>try\<close>: on \<open>1.2.3px\<close> the normaliser raises
  ValueError, and so does the cascade on a node that declares it.
\<close>

theorem parse_font_size_raises:
  "parse_font_size x ''1.2.3px'' = Inl ValueError
   \<and> parse_node_style x (Tag ''span'' [(''style'', ''font-size: 1.2.3px'')] [Str KText ''y''])
         DEFAULT_STYLE
       = Inl ValueError"
  by code_simp

subsection \<open>The conditional-comment normaliser\<close>

lemma rmatch_seq_nil: "(\<And>st'. rmatch ic s b st' = []) \<Longrightarrow> rmatch ic s (RSeq a b) st = []"
  by simp

text \<open>After an end-of-string anchor no letter can follow.\<close>

lemma rmatch_eos_then_char:
  "rmatch ic s (RSeq REos (RSeq REos (RSeq (RSeq (RCls (CChar CHR ''i'')) r1) r2))) st = []"
proof (cases st)
  case (Pair i g)
  show ?thesis
    unfolding Pair
    by (auto simp add: lower_char_def upper_char_def)
qed

lemma split_re_no_match: "rmatch ic s SPLIT_CONDITIONAL_RE st = []"
  unfolding SPLIT_CONDITIONAL_RE_def rseq_def rlit_def
  apply (simp only: foldr.simps o_apply list.simps)
  apply (rule rmatch_seq_nil)
  apply (rule rmatch_eos_then_char)
  done

lemma finditer_split_nil: "finditer_from ic SPLIT_CONDITIONAL_RE s pos = []"
proof (induction ic SPLIT_CONDITIONAL_RE s pos rule: finditer_from.induct)
  case (1 ic s pos)
  show ?case
    using 1(1)
    by (subst finditer_from.simps) (simp add: split_re_no_match)
qed

text \<open>
  Claim C2. When two or more conditional fragments share a condition, the normaliser
  replaces them by one merged block between sentinel comments, which is analysed again
  into \<open>conditional_comment\<close> records. The pattern that finds the fragments asks for the
  end of the string in the middle of the marker, so it matches nowhere: the normaliser
  hands every document to the parser as it is, and no sentinel is ever written. A sentinel
  comment that a document brings along is expanded only below a \<open>div\<close> of class
  \<open>conditional-container\<close>, which the analyser never creates; elsewhere it yields no
  record at all.
\<close>

theorem split_conditionals_never_merged:
  "merged_content content = content
   \<and> handle_split_conditionals x content = bs_parse x content
   \<and> merged_content ''<![if mso]>A<![endif]><p>x</p><![if mso]>B<![endif]>''
       = ''<![if mso]>A<![endif]><p>x</p><![if mso]>B<![endif]>''
   \<and> process_comments d x [(''[cond:mso]'', Tag ''body'' [] cs)] = Inr []"
proof -
  have "py_startswith (py_strip ''[cond:mso]'') ''[cond:''" by code_simp
  moreover have "\<not> is_conditional_container (Tag ''body'' [] cs)" by code_simp
  ultimately show ?thesis
    by (simp add: merged_content_def handle_split_conditionals_def replacements_def
          condition_map_def finditer_def finditer_split_nil)
qed

subsection \<open>Tree pruning\<close>

text \<open>A second prune keeps every child, and computes the same flag.\<close>

lemma prune_fixed: "prune_empty_nodes (fst (prune_empty_nodes t)) = prune_empty_nodes t"
proof (induction t)
  case (Str k s)
  show ?case by simp
next
  case (Tag n a cs)
  let ?kept = "map fst (filter (\<lambda>r. \<not> snd r) (map prune_empty_nodes cs))"
  have "map fst (filter (\<lambda>r. \<not> snd r) (map prune_empty_nodes ?kept)) = ?kept"
    using Tag.IH
  proof (induction cs)
    case Nil
    show ?case by simp
  next
    case (Cons c cs)
    have c: "prune_empty_nodes (fst (prune_empty_nodes c)) = prune_empty_nodes c"
      using Cons.prems by simp
    have rest: "map fst (filter (\<lambda>r. \<not> snd r) (map prune_empty_nodes
                  (map fst (filter (\<lambda>r. \<not> snd r) (map prune_empty_nodes cs)))))
                = map fst (filter (\<lambda>r. \<not> snd r) (map prune_empty_nodes cs))"
      using Cons.IH Cons.prems by simp
    show ?case
    proof (cases "snd (prune_empty_nodes c)")
      case True
      then show ?thesis using rest by simp
    next
      case False
      then show ?thesis using rest c by simp
    qed
  qed
  then show ?case by (simp add: Let_def)
qed

lemma on_first_list_fixed:
  assumes "\<And>c t'. c \<in> set ts \<Longrightarrow> on_first f nm c = Some t' \<Longrightarrow> on_first f nm t' = Some t'"
  shows "on_first_list f nm ts = Some ts' \<Longrightarrow> on_first_list f nm ts' = Some ts'"
  using assms
proof (induction ts arbitrary: ts')
  case Nil
  then show ?case by simp
next
  case (Cons c cs)
  show ?case
  proof (cases "on_first f nm c")
    case None
    with Cons.prems(1) obtain cs2 where a: "on_first_list f nm cs = Some cs2" and b: "ts' = c # cs2"
      by auto
    have "on_first_list f nm cs2 = Some cs2"
      by (rule Cons.IH [OF a], rule Cons.prems(2)) auto
    with None b show ?thesis by simp
  next
    case (Some c')
    with Cons.prems(1) have b: "ts' = c' # cs" by simp
    have "on_first f nm c' = Some c'"
      using Cons.prems(2) [of c c'] Some by simp
    with b show ?thesis by simp
  qed
qed

lemma on_first_fixed:
  assumes idem: "\<And>t. f (f t) = f t"
    and name: "\<And>n a cs. \<exists>cs'. f (Tag n a cs) = Tag n a cs'"
  shows "on_first f nm t = Some t' \<Longrightarrow> on_first f nm t' = Some t'"
proof (induction t arbitrary: t')
  case (Str k s)
  then show ?case by simp
next
  case (Tag n a cs)
  show ?case
  proof (cases "n = nm")
    case True
    with Tag.prems have t': "t' = f (Tag n a cs)" by simp
    obtain cs' where "f (Tag n a cs) = Tag n a cs'"
      using name [of n a cs] by blast
    with True t' idem [of "Tag n a cs"] show ?thesis by simp
  next
    case False
    with Tag.prems obtain cs2 where a: "on_first_list f nm cs = Some cs2" and b: "t' = Tag n a cs2"
      by auto
    have "on_first_list f nm cs2 = Some cs2"
      using on_first_list_fixed [of cs f nm cs2] Tag.IH a by blast
    with b False show ?thesis by simp
  qed
qed

text \<open>Pruning introduces no element of a name that was absent.\<close>

lemma on_first_none_pruned:
  "on_first f nm t = None \<Longrightarrow> on_first f nm (fst (prune_empty_nodes t)) = None"
proof (induction t)
  case (Str k s)
  then show ?case by simp
next
  case (Tag n a cs)
  from Tag.prems have ne: "n \<noteq> nm" and none: "on_first_list f nm cs = None"
    by (auto split: if_splits)
  have "on_first_list f nm (map fst (filter (\<lambda>r. \<not> snd r) (map prune_empty_nodes cs))) = None"
    using none Tag.IH
  proof (induction cs)
    case Nil
    then show ?case by simp
  next
    case (Cons c cs)
    from Cons.prems(1) have c: "on_first f nm c = None" and cs: "on_first_list f nm cs = None"
      by (auto split: option.splits)
    have 1: "on_first f nm (fst (prune_empty_nodes c)) = None"
      using Cons.prems(2) c by simp
    have 2: "on_first_list f nm (map fst (filter (\<lambda>r. \<not> snd r) (map prune_empty_nodes cs))) = None"
      using Cons.IH cs Cons.prems(2) by simp
    show ?case using 1 2 by simp
  qed
  with ne show ?case by (simp add: Let_def)
qed

text \<open>
  Claim C8. Pruning is idempotent: pruning a tree that has been pruned removes no further
  node, for the recursive prune of a node and for the prune of a document below its body.
\<close>

theorem prune_idempotent:
  "prune_tree (prune_tree soup) = prune_tree soup
   \<and> fst (prune_empty_nodes (fst (prune_empty_nodes t))) = fst (prune_empty_nodes t)"
proof
  let ?f = "\<lambda>body. fst (prune_empty_nodes body)"
  have idem: "\<And>t. ?f (?f t) = ?f t" by (simp add: prune_fixed)
  have name: "\<And>n a cs. \<exists>cs'. ?f (Tag n a cs) = Tag n a cs'" by (simp add: Let_def)
  show "prune_tree (prune_tree soup) = prune_tree soup"
  proof (cases soup)
    case (Str k s)
    then show ?thesis by (simp add: prune_tree_def)
  next
    case (Tag n a cs)
    show ?thesis
    proof (cases "on_first_list ?f ''body'' cs")
      case (Some cs')
      have "on_first_list ?f ''body'' cs' = Some cs'"
        using on_first_list_fixed [of cs ?f "''body''" cs'] on_first_fixed [of ?f, OF idem name] Some
        by blast
      with Some Tag show ?thesis by (simp add: prune_tree_def)
    next
      case None
      have kept: "on_first_list ?f ''body'' (children (?f (Tag n a cs))) = None"
      proof -
        have "on_first ?f ''body'' (Tag [] a cs) = None" using None by simp
        from on_first_none_pruned [OF this] show ?thesis by (simp add: Let_def)
      qed
      have "prune_tree soup = ?f (Tag n a cs)"
        using None Tag by (simp add: prune_tree_def)
      moreover have "prune_tree (?f (Tag n a cs)) = ?f (?f (Tag n a cs))"
        using kept by (simp add: prune_tree_def del: prune_empty_nodes.simps)
      ultimately show ?thesis
        using idem [of "Tag n a cs"] Tag by (simp del: prune_empty_nodes.simps)
    qed
  qed
next
  show "fst (prune_empty_nodes (fst (prune_empty_nodes t))) = fst (prune_empty_nodes t)"
    by (simp add: prune_fixed)
qed

subsection \<open>Compositing\<close>

text \<open>
  Claim C7. Compositing a foreground colour whose alpha is 0 over any background colour
  returns fully transparent black, whatever the background is.
\<close>

theorem blend_colors_transparent_fg:
  "alpha fg = 0 \<Longrightarrow> blend_colors x (color_val fg) (color_val bg) = Inr transparent_black"
  by (simp add: blend_colors_def color_val_def)

theorem blend_colors_transparent_fg_witness:
  "alpha \<lparr>rgb = rgb3 12 34 56, alpha = 0\<rparr> = 0 \<and>
   blend_colors example_ext (color_val \<lparr>rgb = rgb3 12 34 56, alpha = 0\<rparr>) (color_val white)
     = Inr \<lparr>rgb = rgb3 0 0 0, alpha = 0\<rparr>"
  using blend_colors_transparent_fg [of "\<lparr>rgb = rgb3 12 34 56, alpha = 0\<rparr>" example_ext white]
  by (simp add: transparent_black_def)

subsection \<open>The visibility classifier\<close>

text \<open>A colour dictionary parses to itself.\<close>

lemma parse_color_color_val: "parse_color x (color_val c) t = c"
  by (simp add: parse_color_def color_val_def parse_color_dict_def)





lemma calculate_contrast_black_white: "calculate_contrast black white = Inr 21"
  by (simp add: calculate_contrast_def luminance_def black_def white_def rgb3_def linearize_def
        py_round2_def py_round_def)

lemma calculate_contrast_white_white: "calculate_contrast white white = Inr 1"
  by (simp add: calculate_contrast_def luminance_def white_def rgb3_def linearize_def
        py_round2_def py_round_def)

lemma blend_white_white: "blend_colors x (color_val white) (color_val white) = Inr white"
  by code_simp

lemma check_visibility_hidden_link:
  "check_visibility x hidden_link_style = Inr (False, [R_display_none])"
proof -
  have 1: "opacity_reason hidden_link_style = Inr []" by code_simp
  have 2: "check_position_offset hidden_link_style = Inr False" by code_simp
  have 3: "check_clipping hidden_link_style = Inr False" by code_simp
  have 4: "font_size_reason hidden_link_style = Inr []" by code_simp
  have 5: "check_filter hidden_link_style = Inr False" by code_simp
  have 6: "map_of hidden_link_style ''color'' = Some (SColor black)"
    "map_of hidden_link_style ''background-color'' = Some (SColor white)"
    "map_of hidden_link_style ''display'' = Some (SStr ''none'')"
    "map_of hidden_link_style ''visibility'' = None"
    by (simp_all add: hidden_link_style_def)
  have 7: "black \<noteq> white" by (simp add: black_def white_def rgb3_def)
  show ?thesis
    unfolding check_visibility_def
    by (simp add: 1 2 3 4 5 6 7 calculate_contrast_black_white parse_color_color_val
          blend_white_white)
qed

lemma check_visibility_same_color:
  "check_visibility x same_color_style = Inr (False, [R_same_color])"
proof -
  have 1: "opacity_reason same_color_style = Inr []" by code_simp
  have 2: "check_position_offset same_color_style = Inr False" by code_simp
  have 3: "check_clipping same_color_style = Inr False" by code_simp
  have 4: "font_size_reason same_color_style = Inr []" by code_simp
  have 5: "check_filter same_color_style = Inr False" by code_simp
  have 6: "map_of same_color_style ''color'' = Some (SColor white)"
    "map_of same_color_style ''background-color'' = Some (SColor white)"
    "map_of same_color_style ''display'' = None"
    "map_of same_color_style ''visibility'' = None"
    by (simp_all add: same_color_style_def)
  show ?thesis
    unfolding check_visibility_def
    by (simp add: 1 2 3 4 5 6 calculate_contrast_white_white parse_color_color_val
          blend_white_white)
qed





subsection \<open>The default keys along a path\<close>

lemma keys_dict_set: "fst ` set (dict_set k v d) = insert k (fst ` set d)"
  by (induction d) auto

lemma has_default_keys_dict_set: "has_default_keys s \<Longrightarrow> has_default_keys (dict_set k v s)"
  unfolding has_default_keys_def keys_dict_set by blast

lemma key_filter: "k \<in> fst ` set s \<Longrightarrow> k \<in> set ps \<Longrightarrow> k \<in> fst ` set (filter (\<lambda>kv. fst kv \<in> set ps) s)"
  by force

lemma has_default_keys_inheritable: "has_default_keys s \<Longrightarrow> has_default_keys (inheritable s)"
proof -
  assume s: "has_default_keys s"
  have "''color'' \<in> set INHERITABLE_PROPS" "''background-color'' \<in> set INHERITABLE_PROPS"
    "''font-size'' \<in> set INHERITABLE_PROPS" "''opacity'' \<in> set INHERITABLE_PROPS"
    by (simp_all add: INHERITABLE_PROPS_def)
  with s show ?thesis
    unfolding has_default_keys_def inheritable_def
    by (intro conjI key_filter) simp_all
qed

lemma has_default_keys_default: "has_default_keys DEFAULT_STYLE"
  by (simp add: has_default_keys_def DEFAULT_STYLE_def)

lemma key_lookup: "k \<in> fst ` set s \<Longrightarrow> \<exists>v. map_of s k = Some v"
  by (cases "map_of s k") (auto simp add: map_of_eq_None_iff)

lemma legacy_size_found:
  "1 \<le> n \<Longrightarrow> n \<le> 7 \<Longrightarrow> \<exists>m. map_of legacy_sizes n = Some m"
proof -
  assume "1 \<le> n" "n \<le> 7"
  then have "n = 1 \<or> n = 2 \<or> n = 3 \<or> n = 4 \<or> n = 5 \<or> n = 6 \<or> n = 7" by arith
  then show ?thesis by (auto simp add: legacy_sizes_def)
qed

lemma parse_font_size_no_key: "parse_font_size x v \<noteq> Inl KeyError"
proof -
  let ?v = "py_lower (py_strip v)"
  show ?thesis
  proof (cases "py_isdigit ?v \<and> 1 \<le> digits_val 10 ?v \<and> digits_val 10 ?v \<le> 7")
    case True
    then obtain m where "map_of legacy_sizes (digits_val 10 ?v) = Some m"
      using legacy_size_found by blast
    with True show ?thesis by (simp add: parse_font_size_def Let_def)
  next
    case False
    then show ?thesis
      by (auto simp add: parse_font_size_def Let_def split: option.splits)
  qed
qed

lemma blend_channel_no_key:
  "blend_channel (color_val a) (color_val b) fa ba i \<noteq> Inl KeyError"
proof -
  have idx: "py_index (PyTuple xs) i \<noteq> Inl KeyError" for xs by simp
  have num: "num_of v \<noteq> Inl KeyError" for v by (cases v) simp_all
  show ?thesis
    unfolding blend_channel_def color_val_def
    by (simp add: ebind_no_key idx num)
qed

lemma blend_colors_color_no_key:
  "blend_colors x (color_val a) (color_val b) \<noteq> Inl KeyError"
proof -
  have "blend_colors x (color_val a) (color_val b) =
          (if alpha a = 0 then Inr transparent_black
           else ebind (blend_channel (color_val a) (color_val b) (alpha a) (alpha b) 0) (\<lambda>r.
                ebind (blend_channel (color_val a) (color_val b) (alpha a) (alpha b) (Suc 0)) (\<lambda>g.
                ebind (blend_channel (color_val a) (color_val b) (alpha a) (alpha b) 2) (\<lambda>b'.
                Inr \<lparr>rgb = [r, g, b'], alpha = alpha a + alpha b * (1 - alpha a)\<rparr>))))"
    by (simp add: blend_colors_def color_val_def Let_def)
  then show ?thesis
    by (simp add: ebind_no_key blend_channel_no_key)
qed

lemma blend_colors_sval_no_key:
  "blend_colors x (color_val a) (sval_py v) \<noteq> Inl KeyError"
proof (cases v)
  case (SStr s)
  have "blend_colors x (color_val a) (PyStr s)
          = blend_colors x (color_val a) (color_val (parse_color x (PyStr s) ''bg''))"
    by (simp add: blend_colors_def color_val_def)
  with SStr show ?thesis by (simp add: blend_colors_color_no_key)
next
  case (SColor c)
  then show ?thesis by (simp add: blend_colors_color_no_key)
qed


lemma set_color_keys: "has_default_keys (fst st) \<Longrightarrow> has_default_keys (fst (set_color x v st))"
  by (simp add: set_color_def Let_def has_default_keys_dict_set)

lemma font_attrs_keys:
  assumes "has_default_keys (fst st)"
  shows "font_attrs x name attrs st \<noteq> Inl KeyError"
    and "font_attrs x name attrs st = Inr st' \<Longrightarrow> has_default_keys (fst st')"
  using assms
  by (auto simp add: font_attrs_def Let_def set_color_keys has_default_keys_dict_set
        parse_font_size_no_key ebind_no_key
      elim!: ebind_InrE split: option.splits if_splits)

lemma bgcolor_attr_keys:
  assumes "has_default_keys sty"
  shows "bgcolor_attr x attrs sty \<noteq> Inl KeyError"
    and "bgcolor_attr x attrs sty = Inr sty' \<Longrightarrow> has_default_keys sty'"
  using assms
  by (auto simp add: bgcolor_attr_def Let_def has_default_keys_dict_set
        blend_colors_sval_no_key ebind_no_key
      elim!: ebind_InrE split: option.splits)

lemma table_attrs_keys:
  assumes "has_default_keys (fst st)"
  shows "table_attrs x name attrs st \<noteq> Inl KeyError"
    and "table_attrs x name attrs st = Inr st' \<Longrightarrow> has_default_keys (fst st')"
proof -
  show "table_attrs x name attrs st \<noteq> Inl KeyError"
    unfolding table_attrs_def
    by (auto simp add: Let_def ebind_Inl_iff bgcolor_attr_keys(1) [OF assms] simp del: set_simps)
  assume r: "table_attrs x name attrs st = Inr st'"
  show "has_default_keys (fst st')"
  proof (cases "name \<notin> set [''table'', ''tr'', ''td'', ''th'', ''font'', ''body'']")
    case True
    with r assms show ?thesis by (simp add: table_attrs_def)
  next
    case False
    from r show ?thesis
      unfolding table_attrs_def
      apply (simp only: False if_False)
      apply (erule ebind_InrE)
      apply (drule bgcolor_attr_keys(2) [OF assms])
      apply (auto simp add: Let_def has_default_keys_dict_set set_color_keys split: option.splits)
      done
  qed
qed

lemma inline_decl_keys:
  assumes "has_default_keys (fst st)"
  shows "inline_decl x pv st \<noteq> Inl KeyError"
    and "inline_decl x pv st = Inr st' \<Longrightarrow> has_default_keys (fst st')"
  using assms
  by (auto simp add: inline_decl_def Let_def set_color_keys has_default_keys_dict_set
        parse_font_size_no_key ebind_no_key
      elim!: ebind_InrE split: if_splits)

lemma fold_err_no_key:
  assumes "\<And>a s. P s \<Longrightarrow> f a s \<noteq> Inl KeyError"
    and "\<And>a s s'. P s \<Longrightarrow> f a s = Inr s' \<Longrightarrow> P s'"
  shows "P s \<Longrightarrow> fold_err f xs s \<noteq> Inl KeyError"
proof (induction xs arbitrary: s)
  case Nil
  show ?case by simp
next
  case (Cons a xs)
  show ?case
  proof (cases "f a s")
    case (Inl e)
    with assms(1) [OF Cons.prems, of a] show ?thesis by simp
  next
    case (Inr s1)
    have "P s1" using assms(2) [OF Cons.prems Inr] .
    from Cons.IH [OF this] Inr show ?thesis by simp
  qed
qed

lemma fold_err_invariant:
  assumes "\<And>a s s'. P s \<Longrightarrow> f a s = Inr s' \<Longrightarrow> P s'"
  shows "P s \<Longrightarrow> fold_err f xs s = Inr s' \<Longrightarrow> P s'"
proof (induction xs arbitrary: s)
  case Nil
  then show ?case by simp
next
  case (Cons a xs)
  from Cons.prems(2) obtain s1 where a: "f a s = Inr s1" and b: "fold_err f xs s1 = Inr s'"
    by (auto elim!: ebind_InrE)
  have "P s1" using assms [OF Cons.prems(1) a] .
  from Cons.IH [OF this b] show ?case .
qed

lemma inline_style_keys:
  assumes "has_default_keys (fst st)"
  shows "inline_style x nattrs st \<noteq> Inl KeyError"
    and "inline_style x nattrs st = Inr st' \<Longrightarrow> has_default_keys (fst st')"
proof -
  let ?P = "\<lambda>st. has_default_keys (fst st)"
  have a: "\<And>pv s. ?P s \<Longrightarrow> inline_decl x pv s \<noteq> Inl KeyError"
    by (rule inline_decl_keys(1))
  have b: "\<And>pv s s'. ?P s \<Longrightarrow> inline_decl x pv s = Inr s' \<Longrightarrow> ?P s'"
    by (rule inline_decl_keys(2))
  show "inline_style x nattrs st \<noteq> Inl KeyError"
  proof (cases "map_of nattrs ''style''")
    case None
    then show ?thesis by (simp add: inline_style_def)
  next
    case (Some sty)
    have "fold_err (inline_decl x) (inline_style_dict sty) st \<noteq> Inl KeyError"
      by (rule fold_err_no_key [of ?P, OF a b assms])
    with Some show ?thesis by (simp add: inline_style_def)
  qed
  assume r: "inline_style x nattrs st = Inr st'"
  show "has_default_keys (fst st')"
  proof (cases "map_of nattrs ''style''")
    case None
    with r assms show ?thesis by (simp add: inline_style_def)
  next
    case (Some sty)
    with r have "fold_err (inline_decl x) (inline_style_dict sty) st = Inr st'"
      by (simp add: inline_style_def)
    from fold_err_invariant [of ?P, OF b assms this] show ?thesis .
  qed
qed

lemma parse_node_style_keys:
  assumes "has_default_keys inh"
  shows "parse_node_style x node inh \<noteq> Inl KeyError"
    and "parse_node_style x node inh = Inr s \<Longrightarrow> has_default_keys s"
proof -
  show "parse_node_style x node inh \<noteq> Inl KeyError"
  proof (cases node)
    case (Str k s)
    then show ?thesis by simp
  next
    case (Tag name nattrs cs)
    show ?thesis
      unfolding Tag parse_node_style.simps Let_def
      by (intro ebind_no_key font_attrs_keys(1) table_attrs_keys(1) inline_style_keys(1))
         (auto simp add: assms dest: font_attrs_keys(2) [rotated] table_attrs_keys(2) [rotated])
  qed
  assume r: "parse_node_style x node inh = Inr s"
  show "has_default_keys s"
  proof (cases node)
    case (Str k s)
    with r show ?thesis by simp
  next
    case (Tag name nattrs cs)
    with r obtain st1 st2 st3 where
      1: "font_attrs x name (dict_of_pairs (map (\<lambda>(k, v). (py_lower k, v)) nattrs))
            (inh, parse_opacity
              (PyStr (case map_of nattrs ''opacity'' of Some v \<Rightarrow> v | None \<Rightarrow> ''1''))
              (case map_of inh ''opacity'' of Some v \<Rightarrow> sval_py v | None \<Rightarrow> PyStr ''1.0'')) = Inr st1"
      and 2: "table_attrs x name (dict_of_pairs (map (\<lambda>(k, v). (py_lower k, v)) nattrs)) st1 = Inr st2"
      and 3: "inline_style x nattrs st2 = Inr st3"
      and 4: "s = dict_set ''opacity'' (SStr (snd st3)) (fst st3)"
      by (auto simp add: Let_def elim!: ebind_InrE)
    have "has_default_keys (fst st1)" using font_attrs_keys(2) [OF _ 1] assms by simp
    then have "has_default_keys (fst st2)" using table_attrs_keys(2) [OF _ 2] by simp
    then have "has_default_keys (fst st3)" using inline_style_keys(2) [OF _ 3] by simp
    with 4 show ?thesis by (simp add: has_default_keys_dict_set)
  qed
qed

lemma nums_of_no_key: "nums_of vs \<noteq> Inl KeyError"
proof (induction vs)
  case Nil
  show ?case by simp
next
  case (Cons v vs)
  have "num_of v \<noteq> Inl KeyError" by (cases v) simp_all
  with Cons show ?case by (auto simp add: ebind_Inl_iff)
qed

lemma calculate_contrast_no_key: "calculate_contrast fg bg \<noteq> Inl KeyError"
  by (auto simp add: calculate_contrast_def luminance_def Let_def ebind_Inl_iff nums_of_no_key)

lemma parse_length_no_key: "parse_length v \<noteq> Inl KeyError"
  by (auto simp add: parse_length_def split: option.splits)

lemma parse_length_sval_no_key: "parse_length_sval v \<noteq> Inl KeyError"
  by (cases v) (simp_all add: parse_length_no_key)

lemma any_err_no_key: "(\<And>a. f a \<noteq> Inl KeyError) \<Longrightarrow> any_err f xs \<noteq> Inl KeyError"
  by (induction xs) (auto simp add: ebind_Inl_iff)

lemma check_position_offset_no_key: "check_position_offset sty \<noteq> Inl KeyError"
  unfolding check_position_offset_def
  by (rule any_err_no_key) (simp add: is_large_offset_def ebind_Inl_iff parse_length_sval_no_key)

lemma is_hidden_clip_no_key: "is_hidden_clip v \<noteq> Inl KeyError"
  by (cases v) simp_all

lemma check_clipping_no_key: "check_clipping sty \<noteq> Inl KeyError"
  unfolding check_clipping_def
  by (rule any_err_no_key) (simp add: is_hidden_clip_no_key split: option.splits)

lemma is_hiding_filter_no_key: "is_hiding_filter f \<noteq> Inl KeyError"
  by (auto simp add: is_hiding_filter_def Let_def ebind_Inl_iff parse_length_no_key
      split: option.splits)

lemma check_filter_no_key: "check_filter sty \<noteq> Inl KeyError"
  by (auto simp add: check_filter_def any_err_no_key is_hiding_filter_no_key
      split: option.splits sval.splits)

lemma opacity_reason_no_key: "opacity_reason sty \<noteq> Inl KeyError"
  by (auto simp add: opacity_reason_def split: option.splits sval.splits)

lemma font_size_reason_no_key: "font_size_reason sty \<noteq> Inl KeyError"
  by (auto simp add: font_size_reason_def ebind_Inl_iff parse_length_sval_no_key split: option.splits)

lemma check_visibility_no_key:
  assumes "has_default_keys sty"
  shows "check_visibility x sty \<noteq> Inl KeyError"
proof -
  from assms obtain cv where cv: "map_of sty ''color'' = Some cv"
    using key_lookup [of "''color''" sty] by (auto simp add: has_default_keys_def)
  show ?thesis
    unfolding check_visibility_def Let_def cv option.case
    by (simp add: ebind_Inl_iff opacity_reason_no_key blend_colors_color_no_key
          calculate_contrast_no_key check_position_offset_no_key check_clipping_no_key
          font_size_reason_no_key check_filter_no_key)
qed

lemma styled_ok_record:
  "has_default_keys s \<Longrightarrow>
   styled_ok \<lparr>r_text = t, r_type = ty, r_url = u, r_style = Some s, r_visible = v,
              r_hidden_reasons = h\<rparr>"
  by (simp add: styled_ok_def)

lemma process_anchor_tag_keys:
  assumes "has_default_keys inh"
  shows "process_anchor_tag x node inh \<noteq> Inl KeyError"
    and "process_anchor_tag x node inh = Inr (Some r) \<Longrightarrow> styled_ok r"
proof -
  show "process_anchor_tag x node inh \<noteq> Inl KeyError"
    unfolding process_anchor_tag_def Let_def
    by (auto simp add: ebind_Inl_iff parse_node_style_keys(1) [OF assms]
          check_visibility_no_key parse_node_style_keys(2) [OF assms])
  assume "process_anchor_tag x node inh = Inr (Some r)"
  then show "styled_ok r"
    unfolding process_anchor_tag_def Let_def
    by (auto simp add: styled_ok_def parse_node_style_keys(2) [OF assms]
        elim!: ebind_InrE split: if_splits)
qed

lemma walk_path_keys:
  assumes "has_default_keys inh" "list_all styled_ok (fst acc)"
  shows "walk_path x path inh acc \<noteq> Inl KeyError"
    and "walk_path x path inh acc = Inr acc' \<Longrightarrow> list_all styled_ok (fst acc')"
  using assms
proof (induction path arbitrary: inh acc)
  case Nil
  { case 1 show ?case by simp }
  { case 2 then show ?case by simp }
next
  case (Cons node rest)
  { case 1
    show ?case
    proof (cases "node_name node = ''a''")
      case True
      then show ?thesis
        by (simp add: ebind_Inl_iff process_anchor_tag_keys(1) [OF 1(1)])
    next
      case False
      have a: "parse_node_style x node inh \<noteq> Inl KeyError"
        by (rule parse_node_style_keys(1) [OF 1(1)])
      { fix cur assume cur: "parse_node_style x node inh = Inr cur"
        have k: "has_default_keys cur" by (rule parse_node_style_keys(2) [OF 1(1) cur])
        have "walk_path x (node # rest) inh acc \<noteq> Inl KeyError"
          using False cur k 1(2)
            Cons.IH(1) [OF has_default_keys_inheritable [OF k]]
          by (auto simp add: ebind_Inl_iff Let_def check_visibility_no_key styled_ok_record
              elim!: ebind_InrE split: if_splits) }
      with a False show ?thesis
        by (cases "parse_node_style x node inh") auto
    qed }
  { case 2
    show ?case
    proof (cases "node_name node = ''a''")
      case True
      with 2 show ?thesis
        by (auto elim!: ebind_InrE split: option.splits
            dest: process_anchor_tag_keys(2) [OF 2(2)])
    next
      case False
      with 2(1) obtain cur acc1 where cur: "parse_node_style x node inh = Inr cur"
        and acc1: "(let text_content = get_node_text node
               in if text_content \<noteq> [] then
                    ebind (check_visibility x cur) (\<lambda>(visible, reasons).
                      Inr (fst acc @ [\<lparr>r_text = text_content, r_type = ''text'',
                                         r_url = None, r_style = Some cur,
                                         r_visible = visible,
                                         r_hidden_reasons = Some (if \<not> visible then reasons else [])\<rparr>],
                           if \<not> visible then False else snd acc))
                  else Inr acc) = Inr acc1"
        and rest: "walk_path x rest (inheritable cur) acc1 = Inr acc'"
        by (auto elim!: ebind_InrE)
      have k: "has_default_keys cur" by (rule parse_node_style_keys(2) [OF 2(2) cur])
      have "list_all styled_ok (fst acc1)"
        using acc1 2(3) k
        by (auto simp add: Let_def styled_ok_record elim!: ebind_InrE split: if_splits)
      from Cons.IH(2) [OF rest has_default_keys_inheritable [OF k] this] show ?thesis .
    qed }
qed

lemma walk_paths_keys:
  shows "walk_paths x paths \<noteq> Inl KeyError"
    and "walk_paths x paths = Inr acc \<Longrightarrow> list_all styled_ok (fst acc)"
proof -
  let ?P = "\<lambda>acc :: arecord list \<times> bool. list_all styled_ok (fst acc)"
  let ?f = "\<lambda>path acc. walk_path x path DEFAULT_STYLE acc"
  have a: "\<And>p s. ?P s \<Longrightarrow> ?f p s \<noteq> Inl KeyError"
    by (rule walk_path_keys(1) [OF has_default_keys_default])
  have b: "\<And>p s s'. ?P s \<Longrightarrow> ?f p s = Inr s' \<Longrightarrow> ?P s'"
    by (rule walk_path_keys(2) [OF has_default_keys_default])
  have init: "?P ([], True)" by simp
  show "walk_paths x paths \<noteq> Inl KeyError"
    unfolding walk_paths_def by (rule fold_err_no_key [of ?P ?f, OF a b init])
  assume "walk_paths x paths = Inr acc"
  then have "fold_err ?f paths ([], True) = Inr acc"
    by (simp add: walk_paths_def)
  from fold_err_invariant [of ?P ?f, OF b init this] show "list_all styled_ok (fst acc)" .
qed

lemma styled_ok_retag:
  "styled_ok (elem\<lparr>r_type := ty, r_visible := v\<rparr>) = styled_ok elem"
  by (simp add: styled_ok_def)

lemma analyze_paths_keys:
  shows "analyze_paths d x soup paths \<noteq> Inl KeyError
         \<and> (\<forall>rs v. analyze_paths d x soup paths = Inr (rs, v) \<longrightarrow> list_all styled_ok rs)"
    and "process_comments d x cs \<noteq> Inl KeyError
         \<and> (\<forall>rs. process_comments d x cs = Inr rs \<longrightarrow> list_all styled_ok rs)"
proof (induction d x soup paths and d x cs rule: analyze_paths_process_comments.induct)
  case (1 d x soup paths)
  then have c1: "process_comments d x (comments_in soup) \<noteq> Inl KeyError"
    and c2: "\<And>rs. process_comments d x (comments_in soup) = Inr rs \<Longrightarrow> list_all styled_ok rs"
    by blast+
  show ?case
  proof (cases "walk_paths x paths")
    case (Inl e)
    with walk_paths_keys(1) [of x paths] show ?thesis by simp
  next
    case (Inr acc)
    obtain rs v where acc: "acc = (rs, v)" by (cases acc)
    have rs: "list_all styled_ok rs"
      using walk_paths_keys(2) [OF Inr] acc by simp
    show ?thesis
    proof (cases "process_comments d x (comments_in soup)")
      case (Inl e)
      with c1 Inr acc show ?thesis by simp
    next
      case cr: (Inr more)
      with c2 [OF cr] rs Inr acc show ?thesis by simp
    qed
  qed
next
  case (2 d x)
  show ?case by simp
next
  case (3 d x comment parent rest)
  let ?text = "py_strip comment"
  show ?case
  proof (cases "py_startswith ?text ''[cond:''")
    case False
    from 3(4) [OF refl False]
    have r1: "process_comments d x rest \<noteq> Inl KeyError"
      and r2: "\<And>rs. process_comments d x rest = Inr rs \<Longrightarrow> list_all styled_ok rs"
      by blast+
    have "styled_ok \<lparr>r_text = ?text, r_type = ''html_comment'', r_url = None, r_style = None,
                 r_visible = False, r_hidden_reasons = None\<rparr>"
      by (simp add: styled_ok_def)
    with False r1 r2 show ?thesis
      by (cases "process_comments d x rest") (simp_all add: Let_def)
  next
    case True
    show ?thesis
    proof (cases "is_conditional_container parent")
      case False
      from 3(3) [OF refl True False] True False show ?thesis by (simp add: Let_def)
    next
      case container: True
      show ?thesis
      proof (cases d)
        case 0
        with True container show ?thesis by (simp add: Let_def)
      next
        case (Suc n)
        let ?soup = "dom_analyzer x (bs_str x parent)"
        from 3(1) [OF refl True container Suc refl]
        have a1: "analyze_paths n x ?soup (collect_paths ?soup) \<noteq> Inl KeyError"
          and a2: "\<And>rs v. analyze_paths n x ?soup (collect_paths ?soup) = Inr (rs, v)
                     \<Longrightarrow> list_all styled_ok rs"
          by blast+
        from 3(2) [OF refl True container Suc refl]
        have r1: "process_comments d x rest \<noteq> Inl KeyError"
          and r2: "\<And>rs. process_comments d x rest = Inr rs \<Longrightarrow> list_all styled_ok rs"
          by blast+
        have retag: "list_all styled_ok rs \<Longrightarrow>
              list_all styled_ok
                (map (\<lambda>elem. elem\<lparr>r_type := ''conditional_comment'', r_visible := False\<rparr>) rs)"
          for rs
          by (induction rs) (simp_all add: styled_ok_retag)
        have eq: "process_comments d x ((comment, parent) # rest) =
                ebind (analyze_paths n x ?soup (collect_paths ?soup)) (\<lambda>(elements, v).
                ebind (process_comments d x rest) (\<lambda>more.
                Inr (map (\<lambda>elem. elem\<lparr>r_type := ''conditional_comment'', r_visible := False\<rparr>)
                         elements @ more)))"
          using True container Suc by (simp add: Let_def)
        show ?thesis
        proof (cases "analyze_paths n x ?soup (collect_paths ?soup)")
          case (Inl e)
          with a1 show ?thesis unfolding eq by simp
        next
          case (Inr res)
          obtain elements v where res: "res = (elements, v)" by (cases res)
          have el: "list_all styled_ok
                (map (\<lambda>elem. elem\<lparr>r_type := ''conditional_comment'', r_visible := False\<rparr>) elements)"
            using a2 Inr res retag by blast
          show ?thesis
          proof (cases "process_comments d x rest")
            case (Inl e)
            with r1 Inr res show ?thesis unfolding eq by simp
          next
            case more: (Inr more)
            with r2 [OF more] el Inr res show ?thesis unfolding eq by simp
          qed
        qed
      qed
    qed
  qed
qed

lemma same_color_paths:
  "prune_tree same_color_doc = same_color_doc"
  "collect_paths same_color_doc = [[Tag ''body'' [] [same_color_par], same_color_par]]"
  "comments_in same_color_doc = []"
  by code_simp+

lemma same_color_cascade:
  "parse_node_style x same_color_par DEFAULT_STYLE = Inr same_color_style"
  by code_simp

lemma same_color_walk:
  "walk_path x [Tag ''body'' [] [same_color_par], same_color_par] DEFAULT_STYLE ([], True)
     = Inr ([\<lparr>r_text = ''hello'', r_type = ''text'', r_url = None,
              r_style = Some same_color_style, r_visible = False,
              r_hidden_reasons = Some [R_same_color]\<rparr>], False)"
proof -
  let ?body = "Tag ''body'' [] [same_color_par]"
  let ?inh = "[(''color'', SColor black), (''background-color'', SColor white),
               (''font-size'', SStr ''16px''), (''opacity'', SStr ''1.00'')]"
  have 1: "parse_node_style x ?body DEFAULT_STYLE = Inr ?inh" by code_simp
  have 2: "get_node_text ?body = []" by code_simp
  have 3: "inheritable ?inh = ?inh" by code_simp
  have 4: "parse_node_style x same_color_par ?inh = Inr same_color_style" by code_simp
  have 5: "get_node_text same_color_par = ''hello''" by code_simp
  have 6: "node_name same_color_par = ''p''" "node_name ?body = ''body''"
    by code_simp+
  have 7: "inheritable same_color_style = same_color_style" by code_simp
  show ?thesis
    by (simp add: 1 2 3 4 5 6 7 check_visibility_same_color del: parse_node_style.simps)
qed

lemma same_color_analysis:
  "analyze_paths d x same_color_doc (collect_paths same_color_doc)
     = Inr ([\<lparr>r_text = ''hello'', r_type = ''text'', r_url = None,
              r_style = Some same_color_style, r_visible = False,
              r_hidden_reasons = Some [R_same_color]\<rparr>], False)"
  by (simp add: same_color_paths walk_paths_def same_color_walk del: walk_path.simps)

text \<open>
  Claim C9. Every resolved style contains the keys \<open>color\<close>, \<open>background-color\<close>,
  \<open>font-size\<close> and \<open>opacity\<close>: the default style has them, the cascade keeps them and
  so does the inherited snapshot. Hence neither the classifier nor the cascade, nor the
  analysis of a document as a whole, ever fails on a missing key, and every style in an
  emitted record has the four keys.
\<close>

theorem resolved_styles_have_default_keys:
  "has_default_keys DEFAULT_STYLE
   \<and> (has_default_keys inh \<longrightarrow>
        parse_node_style x node inh \<noteq> Inl KeyError
        \<and> (\<forall>s. parse_node_style x node inh = Inr s \<longrightarrow>
               has_default_keys s \<and> has_default_keys (inheritable s)
               \<and> check_visibility x s \<noteq> Inl KeyError))
   \<and> analyze_paths d x soup paths \<noteq> Inl KeyError
   \<and> (\<forall>rs v. analyze_paths d x soup paths = Inr (rs, v) \<longrightarrow>
         (\<forall>r \<in> set rs. \<forall>s. r_style r = Some s \<longrightarrow> has_default_keys s))"
proof (intro conjI impI allI ballI)
  show "has_default_keys DEFAULT_STYLE" by (rule has_default_keys_default)
next
  assume "has_default_keys inh"
  then show "parse_node_style x node inh \<noteq> Inl KeyError" by (rule parse_node_style_keys(1))
next
  fix s assume "has_default_keys inh" "parse_node_style x node inh = Inr s"
  then show "has_default_keys s" by (rule parse_node_style_keys(2))
next
  fix s assume "has_default_keys inh" "parse_node_style x node inh = Inr s"
  then have "has_default_keys s" by (rule parse_node_style_keys(2))
  then show "has_default_keys (inheritable s)" by (rule has_default_keys_inheritable)
next
  fix s assume "has_default_keys inh" "parse_node_style x node inh = Inr s"
  then have "has_default_keys s" by (rule parse_node_style_keys(2))
  then show "check_visibility x s \<noteq> Inl KeyError" by (rule check_visibility_no_key)
next
  show "analyze_paths d x soup paths \<noteq> Inl KeyError"
    using analyze_paths_keys(1) [of d x soup paths] by blast
next
  fix rs v r s
  assume a: "analyze_paths d x soup paths = Inr (rs, v)" and r: "r \<in> set rs"
    and s: "r_style r = Some s"
  from analyze_paths_keys(1) [of d x soup paths] a have "list_all styled_ok rs" by blast
  with r have "styled_ok r" by (simp add: list_all_iff)
  with s show "has_default_keys s" by (simp add: styled_ok_def)
qed

theorem resolved_styles_have_default_keys_witness:
  "has_default_keys DEFAULT_STYLE
   \<and> parse_node_style example_ext same_color_par DEFAULT_STYLE = Inr same_color_style
   \<and> has_default_keys same_color_style
   \<and> has_default_keys (inheritable same_color_style)
   \<and> check_visibility example_ext same_color_style \<noteq> Inl KeyError
   \<and> analyze_paths 0 example_ext same_color_doc (collect_paths same_color_doc)
       = Inr ([\<lparr>r_text = ''hello'', r_type = ''text'', r_url = None,
                 r_style = Some same_color_style, r_visible = False,
                 r_hidden_reasons = Some [R_same_color]\<rparr>], False)"
  using resolved_styles_have_default_keys
          [of DEFAULT_STYLE example_ext same_color_par 0 same_color_doc "collect_paths same_color_doc"]
        same_color_cascade [of example_ext] same_color_analysis [of 0 example_ext]
  by simp

subsection \<open>The document verdict\<close>

lemma hidden_link_paths:
  "prune_tree hidden_link_doc = hidden_link_doc"
  "collect_paths hidden_link_doc = [[Tag ''body'' [] [hidden_link], hidden_link]]"
  "comments_in hidden_link_doc = []"
  by code_simp+

lemma hidden_link_walk:
  "walk_path x [Tag ''body'' [] [hidden_link], hidden_link] DEFAULT_STYLE ([], True)
     = Inr ([\<lparr>r_text = ''click'', r_type = ''link'', r_url = Some ''http://x'',
              r_style = Some hidden_link_style, r_visible = False,
              r_hidden_reasons = Some [R_display_none]\<rparr>], True)"
proof -
  let ?body = "Tag ''body'' [] [hidden_link]"
  let ?inh = "[(''color'', SColor black), (''background-color'', SColor white),
               (''font-size'', SStr ''16px''), (''opacity'', SStr ''1.00'')]"
  have 1: "parse_node_style x ?body DEFAULT_STYLE = Inr ?inh" by code_simp
  have 2: "get_node_text ?body = []" by code_simp
  have 3: "inheritable ?inh = ?inh" by code_simp
  have 4: "parse_node_style x hidden_link ?inh = Inr hidden_link_style" by code_simp
  have 5: "get_link_text hidden_link = ''click''" by code_simp
  have 6: "node_name hidden_link = ''a''" "node_name ?body = ''body''"
    "map_of (node_attrs hidden_link) ''href'' = Some ''http://x''"
    by code_simp+
  show ?thesis
    by (simp add: 1 2 3 4 5 6 process_anchor_tag_def check_visibility_hidden_link
          del: parse_node_style.simps)
qed

text \<open>
  What \<open>analyze_paths\<close> returns as the verdict is the conjunction over the text records
  alone: links and comments never enter it.
\<close>

lemma process_anchor_tag_type:
  "process_anchor_tag x node inh = Inr (Some r) \<Longrightarrow> r_type r = ''link''"
  unfolding process_anchor_tag_def Let_def
  by (auto elim!: ebind_InrE split: if_splits)

lemma walk_path_verdict:
  "walk_path x path inh acc = Inr acc' \<Longrightarrow> snd acc = text_records_visible (fst acc)
   \<Longrightarrow> snd acc' = text_records_visible (fst acc')"
proof (induction path arbitrary: inh acc)
  case Nil
  then show ?case by simp
next
  case (Cons node rest)
  show ?case
  proof (cases "node_name node = ''a''")
    case True
    with Cons.prems show ?thesis
      by (auto simp add: text_records_visible_def elim!: ebind_InrE split: option.splits
          dest!: process_anchor_tag_type)
  next
    case False
    with Cons.prems(1) obtain cur acc1 where cur: "parse_node_style x node inh = Inr cur"
      and acc1: "(let text_content = get_node_text node
             in if text_content \<noteq> [] then
                  ebind (check_visibility x cur) (\<lambda>(visible, reasons).
                    Inr (fst acc @ [\<lparr>r_text = text_content, r_type = ''text'',
                                       r_url = None, r_style = Some cur,
                                       r_visible = visible,
                                       r_hidden_reasons = Some (if \<not> visible then reasons else [])\<rparr>],
                         if \<not> visible then False else snd acc))
                else Inr acc) = Inr acc1"
      and rest: "walk_path x rest (inheritable cur) acc1 = Inr acc'"
      by (auto elim!: ebind_InrE)
    have "snd acc1 = text_records_visible (fst acc1)"
      using acc1 Cons.prems(2)
      by (auto simp add: Let_def text_records_visible_def elim!: ebind_InrE split: if_splits)
    from Cons.IH [OF rest this] show ?thesis .
  qed
qed

lemma walk_paths_verdict:
  assumes "walk_paths x paths = Inr acc"
  shows "snd acc = text_records_visible (fst acc)"
proof -
  let ?P = "\<lambda>acc :: arecord list \<times> bool. snd acc = text_records_visible (fst acc)"
  let ?f = "\<lambda>path acc. walk_path x path DEFAULT_STYLE acc"
  have b: "\<And>p s s'. ?P s \<Longrightarrow> ?f p s = Inr s' \<Longrightarrow> ?P s'"
    using walk_path_verdict by blast
  have init: "?P ([], True)" by (simp add: text_records_visible_def)
  from assms have "fold_err ?f paths ([], True) = Inr acc" by (simp add: walk_paths_def)
  from fold_err_invariant [of ?P ?f, OF b init this] show ?thesis .
qed

lemma verdict_is_text_visibility:
  shows "analyze_paths d x soup paths = Inr (rs', v) \<Longrightarrow> v = text_records_visible rs'"
    and "process_comments d x cs = Inr rs \<Longrightarrow> filter (\<lambda>r. r_type r = ''text'') rs = []"
proof (induction d x soup paths and d x cs arbitrary: rs' v and rs
       rule: analyze_paths_process_comments.induct)
  case (1 d x soup paths)
  from 1(2) obtain results more where w: "walk_paths x paths = Inr (results, v)"
    and c: "process_comments d x (comments_in soup) = Inr more"
    and rs': "rs' = results @ more"
    by (auto elim!: ebind_InrE)
  from walk_paths_verdict [OF w] have "v = text_records_visible results" by simp
  with 1(1) [OF c] rs' show ?case
    by (simp add: text_records_visible_def)
next
  case (2 d x)
  then show ?case by simp
next
  case (3 d x comment parent rest)
  let ?text = "py_strip comment"
  show ?case
  proof (cases "py_startswith ?text ''[cond:''")
    case False
    with 3(5) obtain more where m: "process_comments d x rest = Inr more"
      and rs: "rs = \<lparr>r_text = ?text, r_type = ''html_comment'', r_url = None, r_style = None,
                 r_visible = False, r_hidden_reasons = None\<rparr> # more"
      by (auto simp add: Let_def elim!: ebind_InrE)
    from 3(4) [OF refl False m] rs show ?thesis by simp
  next
    case True
    show ?thesis
    proof (cases "is_conditional_container parent")
      case False
      with True 3(5) have "process_comments d x rest = Inr rs" by (simp add: Let_def)
      from 3(3) [OF refl True False this] show ?thesis .
    next
      case container: True
      show ?thesis
      proof (cases d)
        case 0
        with True container 3(5) show ?thesis by (simp add: Let_def)
      next
        case (Suc n)
        with True container 3(5) obtain elements more where
          m: "process_comments d x rest = Inr more"
          and rs: "rs = map (\<lambda>elem. elem\<lparr>r_type := ''conditional_comment'', r_visible := False\<rparr>)
                         elements @ more"
          by (auto simp add: Let_def elim!: ebind_InrE)
        have "filter (\<lambda>r. r_type r = ''text'')
                (map (\<lambda>elem. elem\<lparr>r_type := ''conditional_comment'', r_visible := False\<rparr>) es) = []"
          for es :: "arecord list"
          by (induction es) simp_all
        with 3(2) [OF refl True container Suc refl m] rs show ?thesis by simp
      qed
    qed
  qed
qed

text \<open>
  Claim C1. The document verdict is true exactly when every emitted text and link record
  is visible. A hidden text run makes the verdict false, but the branch of the anchors
  appends its record without touching the verdict: the document whose only content is
  a link with \<open>display:none\<close> yields one link record that is not visible, and the
  verdict true.
\<close>

theorem hidden_link_leaves_verdict_true:
  "collect_paths (prune_tree hidden_link_doc) = [[Tag ''body'' [] [hidden_link], hidden_link]]
   \<and> analyze_paths d x (prune_tree hidden_link_doc) (collect_paths (prune_tree hidden_link_doc))
       = Inr ([\<lparr>r_text = ''click'', r_type = ''link'', r_url = Some ''http://x'',
                 r_style = Some hidden_link_style, r_visible = False,
                 r_hidden_reasons = Some [R_display_none]\<rparr>], True)
   \<and> analyze_paths d x (prune_tree same_color_doc) (collect_paths (prune_tree same_color_doc))
       = Inr ([\<lparr>r_text = ''hello'', r_type = ''text'', r_url = None,
                 r_style = Some same_color_style, r_visible = False,
                 r_hidden_reasons = Some [R_same_color]\<rparr>], False)"
  by (simp add: hidden_link_paths walk_paths_def hidden_link_walk same_color_paths same_color_walk
        del: walk_path.simps)

end
